theory Spec2Isabelle
  imports Complex_Main
begin

section \<open>Deep Recurrent Survival Analysis: the model of \<open>01_model.ipynb\<close>\<close>

text \<open>
  The class \<open>DRSA\<close> has a constructor and one method, \<open>forward\<close>. Both are
  translated statement by statement. The repository holds two copies of the notebook.
  \<open>forward\<close> is the same in both. The constructors differ in one statement: the copy
  with the training loop ends with the assignment of \<open>params_to_train\<close>
  (\<open>DRSA_init\<close>), the copy under \<open>notebooks/\<close> does not (\<open>DRSA_init_notebook\<close>).

  The calls into the tensor library (\<open>nn.Embedding\<close>, \<open>nn.LSTM\<close>, \<open>nn.Linear\<close>,
  \<open>nn.Dropout\<close>, \<open>nn.Sigmoid\<close>, indexing, \<open>.long()\<close>, \<open>torch.cat\<close>) are modelled
  from the library's documented behaviour on the CPU, over the real numbers:
  \<open>.float()\<close> is the identity, and rounding, overflow and NaN of machine floats are
  outside the model. Every exception the library raises on these paths is a value of
  the type \<open>error\<close>.

  A tensor of rank 3 is a nested list, batch-major: \<open>X ! b ! t ! j\<close>. The rank is
  fixed by the type. A nested list cannot carry the sizes of an empty tensor (an empty
  batch has no sequence length), so the predicate \<open>shape3\<close> asks for a positive batch
  size and sequence length; the encoder refuses a sequence of length 0, as the
  library does.
\<close>

subsection \<open>Errors, tensors, index-aware maps\<close>

datatype error = IndexError | RuntimeError | ValueError

type_synonym vec = "real list"
type_synonym matrix = "real list list"
type_synonym tensor3 = "real list list list"

definition shape3 :: "'a list list list \<Rightarrow> nat \<Rightarrow> nat \<Rightarrow> nat \<Rightarrow> bool" where
  "shape3 X B T F \<longleftrightarrow>
     0 < B \<and> 0 < T \<and> length X = B \<and>
     list_all (\<lambda>s. length s = T \<and> list_all (\<lambda>v. length v = F) s) X"

fun imap_from :: "nat \<Rightarrow> (nat \<Rightarrow> 'a \<Rightarrow> 'b) \<Rightarrow> 'a list \<Rightarrow> 'b list" where
  "imap_from i f [] = []"
| "imap_from i f (x # xs) = f i x # imap_from (Suc i) f xs"

definition imap :: "(nat \<Rightarrow> 'a \<Rightarrow> 'b) \<Rightarrow> 'a list \<Rightarrow> 'b list" where
  "imap f xs = imap_from 0 f xs"

text \<open>A list comprehension whose body may raise: the first error ends it.\<close>

fun mapM :: "('a \<Rightarrow> error + 'b) \<Rightarrow> 'a list \<Rightarrow> error + 'b list" where
  "mapM f [] = Inr []"
| "mapM f (x # xs) =
     (case f x of
        Inl e \<Rightarrow> Inl e
      | Inr y \<Rightarrow> (case mapM f xs of Inl e \<Rightarrow> Inl e | Inr ys \<Rightarrow> Inr (y # ys)))"

definition tabulate2 :: "nat \<Rightarrow> nat \<Rightarrow> (nat \<Rightarrow> nat \<Rightarrow> real) \<Rightarrow> matrix" where
  "tabulate2 r c f = map (\<lambda>i. map (\<lambda>j. f i j) [0..<c]) [0..<r]"

definition zeros3 :: "nat \<Rightarrow> nat \<Rightarrow> nat \<Rightarrow> tensor3" where
  "zeros3 a b c = replicate a (replicate b (replicate c 0))"

definition dot :: "vec \<Rightarrow> vec \<Rightarrow> real" where
  "dot u v = sum_list (map2 (*) u v)"

definition matvec :: "matrix \<Rightarrow> vec \<Rightarrow> vec" where
  "matvec W v = map (\<lambda>row. dot row v) W"

definition vadd :: "vec \<Rightarrow> vec \<Rightarrow> vec" where
  "vadd u v = map2 (+) u v"

definition vmul :: "vec \<Rightarrow> vec \<Rightarrow> vec" where
  "vmul u v = map2 (*) u v"

definition sigmoid :: "real \<Rightarrow> real" where
  "sigmoid x = 1 / (1 + exp (- x))"

subsection \<open>Indexing, \<open>.long()\<close>, \<open>torch.cat\<close>\<close>

text \<open>\<open>X[:, :, i]\<close>: an index beyond the last axis raises IndexError.\<close>

definition select_last :: "tensor3 \<Rightarrow> nat \<Rightarrow> error + real list list" where
  "select_last X i =
     (if list_all (list_all (\<lambda>v. i < length v)) X
      then Inr (map (map (\<lambda>v. v ! i)) X) else Inl IndexError)"

text \<open>\<open>X[:, :, k:]\<close>: a slice never raises; past the end it is empty.\<close>

definition slice_last :: "tensor3 \<Rightarrow> nat \<Rightarrow> tensor3" where
  "slice_last X k = map (map (drop k)) X"

text \<open>\<open>.long()\<close> converts to an integer by truncation toward zero.\<close>

definition long :: "real \<Rightarrow> int" where
  "long x = (if 0 \<le> x then \<lfloor>x\<rfloor> else \<lceil>x\<rceil>)"

text \<open>
  \<open>torch.cat(tensors, dim=-1)\<close>: the tensors must agree on every axis but the last,
  and the list must not be empty; otherwise RuntimeError.
\<close>

definition cat2 :: "tensor3 \<Rightarrow> tensor3 \<Rightarrow> error + tensor3" where
  "cat2 A C =
     (if list_all2 (\<lambda>a c. length a = length c) A C
      then Inr (map2 (map2 (@)) A C) else Inl RuntimeError)"

fun cat_last :: "tensor3 list \<Rightarrow> error + tensor3" where
  "cat_last [] = Inl RuntimeError"
| "cat_last [A] = Inr A"
| "cat_last (A # As) = (case cat_last As of Inl e \<Rightarrow> Inl e | Inr C \<Rightarrow> cat2 A C)"

subsection \<open>\<open>nn.Embedding\<close>\<close>

record Embedding =
  num_embeddings :: nat
  embedding_dim :: nat
  weight :: matrix

text \<open>What \<open>nn.Embedding(num_embeddings, embedding_dim)\<close> builds: a table of that shape.\<close>

definition wf_Embedding :: "Embedding \<Rightarrow> bool" where
  "wf_Embedding emb \<longleftrightarrow>
     length (weight emb) = num_embeddings emb \<and>
     list_all (\<lambda>row. length row = embedding_dim emb) (weight emb)"

definition nn_Embedding :: "nat \<Rightarrow> nat \<Rightarrow> (nat \<Rightarrow> nat \<Rightarrow> real) \<Rightarrow> Embedding" where
  "nn_Embedding n d init =
     \<lparr>num_embeddings = n, embedding_dim = d, weight = tabulate2 n d init\<rparr>"

text \<open>The lookup raises IndexError on an index outside the table, negative ones included.\<close>

definition Embedding_forward :: "Embedding \<Rightarrow> int list list \<Rightarrow> error + tensor3" where
  "Embedding_forward emb idx =
     (if list_all (list_all (\<lambda>i. 0 \<le> i \<and> i < int (num_embeddings emb))) idx
      then Inr (map (map (\<lambda>i. weight emb ! nat i)) idx) else Inl IndexError)"

subsection \<open>\<open>nn.Dropout\<close>\<close>

text \<open>
  Dropout is the one random step. The random draw is an explicit argument: \<open>keep\<close>
  says which positions survive. A surviving entry is scaled by \<open>1 / (1 - p)\<close>; rate
  0 keeps and rate 1 drops everything; in evaluation mode dropout is the identity.
\<close>

definition drop_elem :: "real \<Rightarrow> bool \<Rightarrow> real \<Rightarrow> real" where
  "drop_elem p k x =
     (if p = 0 then x else if p = 1 then 0 else if k then x / (1 - p) else 0)"

definition dropout2 :: "real \<Rightarrow> (nat \<Rightarrow> nat \<Rightarrow> bool) \<Rightarrow> vec list \<Rightarrow> vec list" where
  "dropout2 p keep xs = imap (\<lambda>t. imap (\<lambda>j. drop_elem p (keep t j))) xs"

definition nn_Dropout :: "real \<Rightarrow> error + real" where
  "nn_Dropout p = (if p < 0 \<or> 1 < p then Inl ValueError else Inr p)"

definition Dropout_forward ::
  "real \<Rightarrow> bool \<Rightarrow> (nat \<Rightarrow> nat \<Rightarrow> nat \<Rightarrow> bool) \<Rightarrow> tensor3 \<Rightarrow> tensor3" where
  "Dropout_forward p tr keep X =
     (if tr then imap (\<lambda>b. dropout2 p (keep b)) X else X)"

subsection \<open>\<open>nn.Linear\<close>\<close>

record Linear =
  in_features :: int
  out_features :: int
  lin_weight :: matrix
  lin_bias :: vec

datatype param_id =
  Weight_ih nat | Weight_hh nat | Bias_ih nat | Bias_hh nat | Fc_weight | Fc_bias

text \<open>
  The constructors draw their initial weights at random; \<open>init\<close> supplies the entry
  of each parameter at each position. Allocating a tensor with a negative size raises
  RuntimeError.
\<close>

definition nn_Linear ::
  "int \<Rightarrow> int \<Rightarrow> (param_id \<Rightarrow> nat \<Rightarrow> nat \<Rightarrow> real) \<Rightarrow> error + Linear" where
  "nn_Linear n_in n_out init =
     (if n_in < 0 \<or> n_out < 0 then Inl RuntimeError
      else Inr \<lparr>in_features = n_in, out_features = n_out,
                lin_weight = tabulate2 (nat n_out) (nat n_in) (init Fc_weight),
                lin_bias = map (init Fc_bias 0) [0..<nat n_out]\<rparr>)"

definition Linear_forward :: "Linear \<Rightarrow> tensor3 \<Rightarrow> error + tensor3" where
  "Linear_forward L X =
     (if list_all (list_all (\<lambda>v. int (length v) = in_features L)) X
      then Inr (map (map (\<lambda>v. vadd (matvec (lin_weight L) v) (lin_bias L))) X)
      else Inl RuntimeError)"

subsection \<open>\<open>nn.LSTM\<close>, batch first, one direction\<close>

record LSTM_layer =
  weight_ih :: matrix
  weight_hh :: matrix
  bias_ih :: vec
  bias_hh :: vec

record LSTM =
  input_size :: int
  hidden_size :: int
  num_layers :: int
  dropout :: real
  layer_params :: "LSTM_layer list"

text \<open>
  \<open>nn.LSTM(input_size, hidden_size, num_layers, batch_first=True, dropout=p)\<close>. The
  constructor refuses a rate outside \<open>[0, 1]\<close> and sizes that are not positive. (Older
  releases of the library accept an input size of 0 and fail on a negative one only
  when they allocate the weights; no statement below depends on a construction with
  an input size that is not positive.)
\<close>

definition nn_LSTM ::
  "int \<Rightarrow> int \<Rightarrow> int \<Rightarrow> real \<Rightarrow> (param_id \<Rightarrow> nat \<Rightarrow> nat \<Rightarrow> real) \<Rightarrow> error + LSTM" where
  "nn_LSTM n_in n_hidden n_lay p init =
     (if p < 0 \<or> 1 < p then Inl ValueError
      else if n_hidden \<le> 0 then Inl ValueError
      else if n_lay \<le> 0 then Inl ValueError
      else if n_in \<le> 0 then Inl ValueError
      else Inr \<lparr>input_size = n_in, hidden_size = n_hidden, num_layers = n_lay, dropout = p,
                layer_params = map (\<lambda>l.
                  \<lparr>weight_ih = tabulate2 (4 * nat n_hidden)
                                 (if l = 0 then nat n_in else nat n_hidden) (init (Weight_ih l)),
                   weight_hh = tabulate2 (4 * nat n_hidden) (nat n_hidden) (init (Weight_hh l)),
                   bias_ih = map (init (Bias_ih l) 0) [0..<4 * nat n_hidden],
                   bias_hh = map (init (Bias_hh l) 0) [0..<4 * nat n_hidden]\<rparr>)
                  [0..<nat n_lay]\<rparr>)"

text \<open>
  One step of one layer. The four gates are the four chunks of the pre-activation, in
  the order input, forget, cell, output:
  \<open>c' = forgetgate * c + ingate * cellgate\<close> and \<open>h' = outgate * tanh c'\<close>.
\<close>

definition lstm_cell :: "LSTM_layer \<Rightarrow> nat \<Rightarrow> vec \<Rightarrow> vec \<times> vec \<Rightarrow> vec \<times> vec" where
  "lstm_cell P H x hc =
     (let gates = vadd (vadd (matvec (weight_ih P) x) (bias_ih P))
                       (vadd (matvec (weight_hh P) (fst hc)) (bias_hh P));
          ingate = map sigmoid (take H gates);
          forgetgate = map sigmoid (take H (drop H gates));
          cellgate = map tanh (take H (drop (2 * H) gates));
          outgate = map sigmoid (take H (drop (3 * H) gates));
          c' = vadd (vmul forgetgate (snd hc)) (vmul ingate cellgate);
          h' = vmul outgate (map tanh c')
      in (h', c'))"

text \<open>One layer over a sequence, left to right, from the state \<open>hc\<close>.\<close>

fun lstm_layer ::
  "LSTM_layer \<Rightarrow> nat \<Rightarrow> vec \<times> vec \<Rightarrow> vec list \<Rightarrow> vec list \<times> (vec \<times> vec)" where
  "lstm_layer P H hc [] = ([], hc)"
| "lstm_layer P H hc (x # xs) =
     (let hc' = lstm_cell P H x hc; r = lstm_layer P H hc' xs
      in (fst hc' # fst r, snd r))"

text \<open>
  The stack of layers on one sequence of the batch. In training mode with a positive
  rate, dropout is applied to the output of every layer but the last.
\<close>

fun lstm_stack ::
  "bool \<Rightarrow> real \<Rightarrow> (nat \<Rightarrow> nat \<Rightarrow> nat \<Rightarrow> bool) \<Rightarrow> nat \<Rightarrow> nat \<Rightarrow> LSTM_layer list \<Rightarrow>
   (vec \<times> vec) list \<Rightarrow> vec list \<Rightarrow> vec list \<times> (vec \<times> vec) list" where
  "lstm_stack tr p keep H l [] hcs xs = (xs, [])"
| "lstm_stack tr p keep H l (P # Ps) hcs xs =
     (let r = lstm_layer P H (hcs ! l) xs;
          ys = (if tr \<and> 0 < p \<and> Ps \<noteq> [] then dropout2 p (keep l) (fst r) else fst r);
          rest = lstm_stack tr p keep H (Suc l) Ps hcs ys
      in (fst rest, snd r # snd rest))"

definition hx_shape :: "tensor3 \<Rightarrow> nat \<Rightarrow> nat \<Rightarrow> nat \<Rightarrow> bool" where
  "hx_shape h n B H \<longleftrightarrow>
     length h = n \<and> list_all (\<lambda>s. length s = B \<and> list_all (\<lambda>v. length v = H) s) h"

text \<open>
  \<open>lstm(input, hx)\<close>. The last axis of the input must be \<open>input_size\<close>, a given
  state must have shape \<open>(num_layers, batch, hidden_size)\<close>, and the sequences must not
  be empty, else RuntimeError. Without \<open>hx\<close> both states are zeros. The result is the
  last layer's output at every step, and the final states \<open>(h_n, c_n)\<close>.
\<close>

definition LSTM_forward ::
  "LSTM \<Rightarrow> bool \<Rightarrow> (nat \<Rightarrow> nat \<Rightarrow> nat \<Rightarrow> nat \<Rightarrow> bool) \<Rightarrow> tensor3 \<Rightarrow> (tensor3 \<times> tensor3) option \<Rightarrow>
   error + tensor3 \<times> (tensor3 \<times> tensor3)" where
  "LSTM_forward L tr keep input hx =
     (if \<not> list_all (list_all (\<lambda>v. int (length v) = input_size L)) input then Inl RuntimeError
      else
        let B = length input; H = nat (hidden_size L); n = nat (num_layers L);
            h0c0 = (case hx of None \<Rightarrow> (zeros3 n B H, zeros3 n B H) | Some hc \<Rightarrow> hc)
        in if \<not> (hx_shape (fst h0c0) n B H \<and> hx_shape (snd h0c0) n B H) then Inl RuntimeError
           else if list_ex (\<lambda>xs. xs = []) input then Inl RuntimeError
           else
             let rs = imap (\<lambda>b xs. lstm_stack tr (dropout L) (\<lambda>l. keep l b) H 0 (layer_params L)
                               (map (\<lambda>l. (fst h0c0 ! l ! b, snd h0c0 ! l ! b)) [0..<n]) xs) input
             in Inr (map fst rs,
                     (map (\<lambda>l. map (\<lambda>r. fst (snd r ! l)) rs) [0..<n],
                      map (\<lambda>l. map (\<lambda>r. snd (snd r ! l)) rs) [0..<n])))"

subsection \<open>The class \<open>DRSA\<close>\<close>

text \<open>
  Modules and their parameters. A module that is assigned to an attribute of another
  module is registered as its child; a plain list of modules is not, while an
  \<open>nn.ModuleList\<close> registers its items. \<open>parameters()\<close> collects the parameter
  tensors of a module and of its registered children.
\<close>

datatype module =
    Embedding_module Embedding
  | LSTM_module LSTM
  | Linear_module Linear
  | Dropout_module real
  | Sigmoid_module
  | ModuleList "module list"

datatype parameter = Vector vec | Matrix matrix

fun parameters :: "module \<Rightarrow> parameter list" where
  "parameters (Embedding_module emb) = [Matrix (weight emb)]"
| "parameters (LSTM_module L) =
     concat (map (\<lambda>P. [Matrix (weight_ih P), Matrix (weight_hh P),
                       Vector (bias_ih P), Vector (bias_hh P)]) (layer_params L))"
| "parameters (Linear_module L) = [Matrix (lin_weight L), Vector (lin_bias L)]"
| "parameters (Dropout_module p) = []"
| "parameters Sigmoid_module = []"
| "parameters (ModuleList ms) = concat (map parameters ms)"

record DRSA =
  n_features :: int
  n_layers :: int
  hidden_dim :: int
  embeddings :: "Embedding list"
  lstm :: LSTM
  fc :: Linear
  linear_dropout :: real
  params_to_train :: "module option"
  training :: bool

text \<open>
  \<open>DRSA.__init__\<close>. The encoder's input width is computed from the list of embeddings
  and \<open>n_features\<close>; the three library constructors run in the order of the source.
  A new module is in training mode. The attribute \<open>params_to_train\<close> exists only on
  objects of the copy that assigns it; on the others it is \<open>None\<close> here.
\<close>

definition DRSA_init ::
  "int \<Rightarrow> int \<Rightarrow> int \<Rightarrow> Embedding list \<Rightarrow> int \<Rightarrow> real \<Rightarrow> real \<Rightarrow>
   (param_id \<Rightarrow> nat \<Rightarrow> nat \<Rightarrow> real) \<Rightarrow> error + DRSA" where
  "DRSA_init nf hdim nlay embs output_size LSTM_dropout Linear_dropout init =
     (case nn_LSTM (sum_list (map (\<lambda>emb. int (embedding_dim emb)) embs) + nf - int (length embs))
                   hdim nlay LSTM_dropout init of
        Inl e \<Rightarrow> Inl e
      | Inr lstm' \<Rightarrow>
          (case nn_Linear hdim output_size init of
             Inl e \<Rightarrow> Inl e
           | Inr fc' \<Rightarrow>
               (case nn_Dropout Linear_dropout of
                  Inl e \<Rightarrow> Inl e
                | Inr p \<Rightarrow>
                    Inr \<lparr>n_features = nf, n_layers = nlay, hidden_dim = hdim, embeddings = embs,
                         lstm = lstm', fc = fc', linear_dropout = p,
                         params_to_train =
                           Some (ModuleList (map Embedding_module embs
                                               @ [LSTM_module lstm', Linear_module fc'])),
                         training = True\<rparr>)))"

text \<open>
  \<open>DRSA.__init__\<close> of the copy under \<open>notebooks/\<close>: the same statements, without the
  last one.
\<close>

definition DRSA_init_notebook ::
  "int \<Rightarrow> int \<Rightarrow> int \<Rightarrow> Embedding list \<Rightarrow> int \<Rightarrow> real \<Rightarrow> real \<Rightarrow>
   (param_id \<Rightarrow> nat \<Rightarrow> nat \<Rightarrow> real) \<Rightarrow> error + DRSA" where
  "DRSA_init_notebook nf hdim nlay embs output_size LSTM_dropout Linear_dropout init =
     (case nn_LSTM (sum_list (map (\<lambda>emb. int (embedding_dim emb)) embs) + nf - int (length embs))
                   hdim nlay LSTM_dropout init of
        Inl e \<Rightarrow> Inl e
      | Inr lstm' \<Rightarrow>
          (case nn_Linear hdim output_size init of
             Inl e \<Rightarrow> Inl e
           | Inr fc' \<Rightarrow>
               (case nn_Dropout Linear_dropout of
                  Inl e \<Rightarrow> Inl e
                | Inr p \<Rightarrow>
                    Inr \<lparr>n_features = nf, n_layers = nlay, hidden_dim = hdim, embeddings = embs,
                         lstm = lstm', fc = fc', linear_dropout = p,
                         params_to_train = None, training = True\<rparr>)))"

text \<open>
  \<open>model.parameters()\<close>, what the notebook hands to the optimizer. The children of a
  \<open>DRSA\<close> are the modules its constructor assigns to attributes, in that order;
  \<open>self.embeddings\<close> is a plain list and registers nothing, so the embedding tables
  are listed only through \<open>params_to_train\<close>. The library lists each parameter tensor
  once, by identity; here a repeated value is listed once.
\<close>

definition DRSA_children :: "DRSA \<Rightarrow> module list" where
  "DRSA_children m =
     [LSTM_module (lstm m), Linear_module (fc m), Dropout_module (linear_dropout m),
      Sigmoid_module]
     @ (case params_to_train m of None \<Rightarrow> [] | Some module_list \<Rightarrow> [module_list])"

definition DRSA_parameters :: "DRSA \<Rightarrow> parameter list" where
  "DRSA_parameters m = remdups (concat (map parameters (DRSA_children m)))"

text \<open>
  The first three statements of \<open>forward\<close>: the embedding of each categorical column,
  the remaining columns, and their concatenation along the last axis.
\<close>

definition all_embeddings :: "DRSA \<Rightarrow> tensor3 \<Rightarrow> error + tensor3 list" where
  "all_embeddings m X =
     mapM (\<lambda>(i, emb). case select_last X i of
                        Inl e \<Rightarrow> Inl e
                      | Inr col \<Rightarrow> Embedding_forward emb (map (map long) col))
          (enumerate 0 (embeddings m))"

definition all_features :: "DRSA \<Rightarrow> tensor3 \<Rightarrow> error + tensor3" where
  "all_features m X =
     (case all_embeddings m X of
        Inl e \<Rightarrow> Inl e
      | Inr embedded \<Rightarrow>
          (let other_features = slice_last X (length (embeddings m))
           in cat_last (embedded @ [other_features])))"

record masks =
  lstm_keep :: "nat \<Rightarrow> nat \<Rightarrow> nat \<Rightarrow> nat \<Rightarrow> bool"
  linear_keep :: "nat \<Rightarrow> nat \<Rightarrow> nat \<Rightarrow> bool"

text \<open>
  \<open>DRSA.forward\<close>. The encoder is called without a state, and the state it returns
  is dropped.
\<close>

definition DRSA_forward :: "DRSA \<Rightarrow> masks \<Rightarrow> tensor3 \<Rightarrow> error + tensor3" where
  "DRSA_forward m rnd X =
     (case all_features m X of
        Inl e \<Rightarrow> Inl e
      | Inr feats \<Rightarrow>
          (case LSTM_forward (lstm m) (training m) (lstm_keep rnd) feats None of
             Inl e \<Rightarrow> Inl e
           | Inr (out, hidden) \<Rightarrow>
               (case Linear_forward (fc m) out of
                  Inl e \<Rightarrow> Inl e
                | Inr y \<Rightarrow>
                    Inr (map (map (map sigmoid))
                          (Dropout_forward (linear_dropout m) (training m) (linear_keep rnd) y)))))"

text \<open>Every categorical code of the input lies in the vocabulary of its table.\<close>

definition in_vocab :: "Embedding list \<Rightarrow> tensor3 \<Rightarrow> bool" where
  "in_vocab embs X \<longleftrightarrow>
     list_all (list_all (\<lambda>v. list_all (\<lambda>(emb, x). 0 \<le> long x \<and> long x < int (num_embeddings emb))
                              (zip embs v))) X"

subsection \<open>What the constructors establish\<close>

definition wf_layer :: "LSTM_layer \<Rightarrow> nat \<Rightarrow> bool" where
  "wf_layer P H \<longleftrightarrow>
     length (weight_ih P) = 4 * H \<and> length (weight_hh P) = 4 * H \<and>
     length (bias_ih P) = 4 * H \<and> length (bias_hh P) = 4 * H"

definition wf_LSTM :: "LSTM \<Rightarrow> bool" where
  "wf_LSTM L \<longleftrightarrow>
     0 < hidden_size L \<and> 0 < num_layers L \<and>
     length (layer_params L) = nat (num_layers L) \<and>
     list_all (\<lambda>P. wf_layer P (nat (hidden_size L))) (layer_params L)"

definition wf_Linear :: "Linear \<Rightarrow> bool" where
  "wf_Linear L \<longleftrightarrow>
     0 \<le> out_features L \<and> length (lin_weight L) = nat (out_features L) \<and>
     length (lin_bias L) = nat (out_features L)"

definition wf_DRSA :: "DRSA \<Rightarrow> bool" where
  "wf_DRSA m \<longleftrightarrow>
     wf_LSTM (lstm m) \<and> wf_Linear (fc m) \<and> list_all wf_Embedding (embeddings m) \<and>
     input_size (lstm m) =
       sum_list (map (\<lambda>emb. int (embedding_dim emb)) (embeddings m)) + n_features m
         - int (length (embeddings m)) \<and>
     hidden_size (lstm m) = hidden_dim m \<and> in_features (fc m) = hidden_dim m"

subsection \<open>The specification's fused feature vector\<close>

text \<open>
  This definition follows the words of the specification, not the source: the
  FusedFeatureVector of one time step is the concatenation of all embedding lookups, in
  table order (table \<open>i\<close> at the truncated code of column \<open>i\<close>), followed by all
  continuous columns. The source's fusion is \<open>all_features\<close>; the two are compared below.
\<close>

definition FusedFeatureVector :: "Embedding list \<Rightarrow> vec \<Rightarrow> vec" where
  "FusedFeatureVector embs v =
     concat (map (\<lambda>i. weight (embs ! i) ! nat (long (v ! i))) [0..<length embs])
       @ drop (length embs) v"

text \<open>Column \<open>i\<close> exists in every vector of the input and holds codes known to \<open>emb\<close>.\<close>

definition col_ok :: "tensor3 \<Rightarrow> nat \<Rightarrow> Embedding \<Rightarrow> bool" where
  "col_ok X i emb \<longleftrightarrow>
     list_all (list_all (\<lambda>v. i < length v \<and> 0 \<le> long (v ! i) \<and>
                              long (v ! i) < int (num_embeddings emb))) X"

subsection \<open>The specification's encoder: every layer starts from zero\<close>




subsection \<open>Successive calls on one module\<close>




subsection \<open>The notebook's example objects\<close>

text \<open>
  The notebook builds two embedding tables, \<open>nn.Embedding(240, 2)\<close> and
  \<open>nn.Embedding(31, 2)\<close>, and from them
  \<open>drsa = DRSA(n_features=17, hidden_dim=2, n_layers=2, embeddings=ptp_embeddings,
  output_size=1, LSTM_dropout=0.1, Linear_dropout=0.1)\<close>. The initial weights are
  random there; here they are fixed numbers, and row \<open>i\<close> of the team table holds the
  number \<open>i\<close>. \<open>drsa\<close> is built by the constructor that assigns \<open>params_to_train\<close>,
  \<open>drsa_notebook\<close> by the one that does not.
\<close>

definition init0 :: "param_id \<Rightarrow> nat \<Rightarrow> nat \<Rightarrow> real" where
  "init0 pid i j = 1 / 4"

definition pitcher_embeddings :: Embedding where
  "pitcher_embeddings = nn_Embedding 240 2 (\<lambda>i j. 1 / 2)"

definition team_embeddings :: Embedding where
  "team_embeddings = nn_Embedding 31 2 (\<lambda>i j. real i)"

definition ptp_embeddings :: "Embedding list" where
  "ptp_embeddings = [pitcher_embeddings, team_embeddings]"

definition drsa :: DRSA where
  "drsa = projr (DRSA_init 17 2 2 ptp_embeddings 1 (1 / 10) (1 / 10) init0)"

definition drsa_notebook :: DRSA where
  "drsa_notebook = projr (DRSA_init_notebook 17 2 2 ptp_embeddings 1 (1 / 10) (1 / 10) init0)"

text \<open>Two draws of the dropout masks: keep everything, drop everything.\<close>

definition keep_all :: masks where
  "keep_all = \<lparr>lstm_keep = (\<lambda>l b t j. True), linear_keep = (\<lambda>b t j. True)\<rparr>"

definition keep_none :: masks where
  "keep_none = \<lparr>lstm_keep = (\<lambda>l b t j. False), linear_keep = (\<lambda>b t j. False)\<rparr>"

text \<open>
  Inputs of batch size 1 for \<open>drsa\<close>: two time steps of 17 features (pitcher 3, team
  1, then 15 continuous values), and a second one that differs at the later step only.
\<close>

definition X_two_steps :: tensor3 where
  "X_two_steps = [[3 # 1 # replicate 15 (1 / 2), 4 # 2 # replicate 15 (1 / 2)]]"

definition X_two_steps' :: tensor3 where
  "X_two_steps' = [[3 # 1 # replicate 15 (1 / 2), 7 # 30 # replicate 15 (- 2)]]"

text \<open>Inputs of the wrong width: one feature, and three features.\<close>

definition X_one_feature :: tensor3 where
  "X_one_feature = [[[5]]]"

definition X_three_features :: tensor3 where
  "X_three_features = [[[5, 7, 0]]]"

text \<open>An input of the right width whose pitcher code is not in the table of 240 rows.\<close>

definition X_unknown_pitcher :: tensor3 where
  "X_unknown_pitcher = [[240 # 1 # replicate 15 (1 / 2)]]"

text \<open>An input of the right width whose team code truncates to -1.\<close>

definition X_negative_team :: tensor3 where
  "X_negative_team = [[3 # (- 3 / 2) # replicate 15 (1 / 2)]]"

text \<open>An input of the right width whose team code is negative and truncates to 0.\<close>

definition X_small_negative_team :: tensor3 where
  "X_small_negative_team = [[3 # (- 1 / 2) # replicate 15 (1 / 2)]]"






section \<open>Auxiliary facts\<close>

subsection \<open>Sigmoid and index-aware maps\<close>

lemma sigmoid_range: "0 < sigmoid x \<and> sigmoid x < 1"
proof -
  have e: "0 < exp (- x)" by simp
  have "0 < 1 / (1 + exp (- x))"
    using e by (simp add: add_pos_pos)
  moreover have "1 / (1 + exp (- x)) < 1"
    using e by (simp add: add_pos_pos)
  ultimately show ?thesis by (simp add: sigmoid_def)
qed

lemma length_imap_from: "length (imap_from i f xs) = length xs"
  by (induction xs arbitrary: i) auto

lemma nth_imap_from: "n < length xs \<Longrightarrow> imap_from i f xs ! n = f (i + n) (xs ! n)"
proof (induction xs arbitrary: i n)
  case Nil
  then show ?case by simp
next
  case (Cons x xs)
  then show ?case by (cases n) auto
qed

lemma take_imap_from: "take n (imap_from i f xs) = imap_from i f (take n xs)"
proof (induction xs arbitrary: i n)
  case Nil
  then show ?case by simp
next
  case (Cons x xs)
  then show ?case by (cases n) auto
qed

lemma imap_from_map: "imap_from i f (map g xs) = imap_from i (\<lambda>k x. f k (g x)) xs"
  by (induction xs arbitrary: i) auto

subsection \<open>Embedding lookups and their concatenation\<close>

text \<open>
  Every tensor that \<open>torch.cat\<close> receives is a map over the input, so the
  concatenation itself cannot fail: the fusion fails exactly when a lookup does.
\<close>

lemma embed_col:
  "(case select_last X i of Inl e \<Rightarrow> Inl e
    | Inr col \<Rightarrow> Embedding_forward emb (map (map long) col)) =
   (if col_ok X i emb then Inr (map (map (\<lambda>v. weight emb ! nat (long (v ! i)))) X)
    else Inl IndexError)"
  by (auto simp: select_last_def Embedding_forward_def col_ok_def list_all_iff)

lemma mapM_if:
  "mapM (\<lambda>x. if P x then Inr (g x) else Inl e) xs =
   (if list_all P xs then Inr (map g xs) else Inl e)"
  by (induction xs) auto

lemma all_embeddings_eq:
  "all_embeddings m X =
   (if list_all (\<lambda>(i, emb). col_ok X i emb) (enumerate 0 (embeddings m))
    then Inr (map (\<lambda>(i, emb). map (map (\<lambda>v. weight emb ! nat (long (v ! i)))) X)
                  (enumerate 0 (embeddings m)))
    else Inl IndexError)"
proof -
  have "all_embeddings m X =
        mapM (\<lambda>x. if (\<lambda>(i, emb). col_ok X i emb) x
                   then Inr ((\<lambda>(i, emb). map (map (\<lambda>v. weight emb ! nat (long (v ! i)))) X) x)
                   else Inl IndexError) (enumerate 0 (embeddings m))"
    unfolding all_embeddings_def embed_col
    by (rule arg_cong2[where f = mapM]) (auto simp: fun_eq_iff)
  then show ?thesis by (simp only: mapM_if)
qed

lemma cat_maps:
  "cat_last (map (\<lambda>(i, emb). map (map (g i emb)) X) es @ [map (map h) X]) =
   Inr (map (map (\<lambda>v. concat (map (\<lambda>(i, emb). g i emb v) es) @ h v)) X)"
proof (induction es)
  case Nil
  then show ?case by simp
next
  case (Cons e es)
  obtain i emb where e: "e = (i, emb)" by (cases e)
  have ne: "map (\<lambda>(i, emb). map (map (g i emb)) X) es @ [map (map h) X] \<noteq> []" by simp
  then obtain A As where as: "map (\<lambda>(i, emb). map (map (g i emb)) X) es @ [map (map h) X] = A # As"
    by (cases "map (\<lambda>(i, emb). map (map (g i emb)) X) es @ [map (map h) X]") auto
  have "cat_last (map (\<lambda>(i, emb). map (map (g i emb)) X) (e # es) @ [map (map h) X]) =
        cat2 (map (map (g i emb)) X)
             (map (map (\<lambda>v. concat (map (\<lambda>(i, emb). g i emb v) es) @ h v)) X)"
    using Cons.IH as e by simp
  also have "\<dots> = Inr (map (map (\<lambda>v. concat (map (\<lambda>(i, emb). g i emb v) (e # es)) @ h v)) X)"
    unfolding cat2_def e
    by (simp add: list_all2_map1 list_all2_map2 list_all2_same map2_map_map zip_same_conv_map)
  finally show ?case .
qed

lemma map_enumerate_nth:
  "map (\<lambda>(i, x). f i x) (enumerate 0 xs) = map (\<lambda>i. f i (xs ! i)) [0..<length xs]"
  by (rule nth_equalityI) (auto simp: nth_enumerate_eq)

lemma all_features_eq:
  "all_features m X =
   (if list_all (\<lambda>(i, emb). col_ok X i emb) (enumerate 0 (embeddings m))
    then Inr (map (map (FusedFeatureVector (embeddings m))) X) else Inl IndexError)"
proof (cases "list_all (\<lambda>(i, emb). col_ok X i emb) (enumerate 0 (embeddings m))")
  case True
  have "all_features m X =
        cat_last (map (\<lambda>(i, emb). map (map (\<lambda>v. weight emb ! nat (long (v ! i)))) X)
                      (enumerate 0 (embeddings m))
                  @ [map (map (drop (length (embeddings m)))) X])"
    using True by (simp add: all_features_def all_embeddings_eq slice_last_def)
  also have "\<dots> = Inr (map (map (\<lambda>v. concat (map (\<lambda>(i, emb). weight emb ! nat (long (v ! i)))
                                                  (enumerate 0 (embeddings m)))
                                     @ drop (length (embeddings m)) v)) X)"
    by (rule cat_maps)
  also have "\<dots> = Inr (map (map (FusedFeatureVector (embeddings m))) X)"
    by (simp add: FusedFeatureVector_def map_enumerate_nth)
  finally show ?thesis using True by simp
next
  case False
  then show ?thesis by (simp add: all_features_def all_embeddings_eq)
qed

lemma cols_ok_nth:
  "list_all (\<lambda>(i, emb). col_ok X i emb) (enumerate 0 embs) \<longleftrightarrow>
   (\<forall>i < length embs. col_ok X i (embs ! i))"
  by (auto simp: list_all_iff in_set_enumerate_eq)

lemma in_vocab_nth:
  "in_vocab embs X \<longleftrightarrow>
   (\<forall>s \<in> set X. \<forall>v \<in> set s. \<forall>i. i < length embs \<and> i < length v \<longrightarrow>
      0 \<le> long (v ! i) \<and> long (v ! i) < int (num_embeddings (embs ! i)))"
  by (fastforce simp: in_vocab_def list_all_iff set_zip)

lemma shape3_vec: "shape3 X B T F \<Longrightarrow> s \<in> set X \<Longrightarrow> v \<in> set s \<Longrightarrow> length v = F"
  by (auto simp: shape3_def list_all_iff)

lemma shape3_ex: "shape3 X B T F \<Longrightarrow> \<exists>s \<in> set X. \<exists>v \<in> set s. length v = F"
proof -
  assume a: "shape3 X B T F"
  then obtain s where s: "s \<in> set X" by (cases X) (auto simp: shape3_def)
  with a have "length s = T" "0 < T" by (auto simp: shape3_def list_all_iff)
  then obtain v where "v \<in> set s" by (cases s) auto
  with a s show ?thesis by (auto simp: shape3_def list_all_iff)
qed

lemma cols_ok_iff:
  assumes "shape3 X B T F"
  shows "list_all (\<lambda>(i, emb). col_ok X i emb) (enumerate 0 embs) \<longleftrightarrow>
         length embs \<le> F \<and> in_vocab embs X"
proof
  assume "list_all (\<lambda>(i, emb). col_ok X i emb) (enumerate 0 embs)"
  then have L: "\<forall>i < length embs. col_ok X i (embs ! i)"
    by (simp only: cols_ok_nth)
  obtain s v where sv: "s \<in> set X" "v \<in> set s" "length v = F"
    using shape3_ex[OF assms] by blast
  have "i < F" if "i < length embs" for i
    using L that sv by (auto simp: col_ok_def list_all_iff)
  then have "length embs \<le> F" by (meson not_le_imp_less less_irrefl)
  moreover have "in_vocab embs X"
    using L by (auto simp: in_vocab_nth col_ok_def list_all_iff)
  ultimately show "length embs \<le> F \<and> in_vocab embs X" by simp
next
  assume R: "length embs \<le> F \<and> in_vocab embs X"
  have "\<forall>i < length embs. col_ok X i (embs ! i)"
    unfolding col_ok_def list_all_iff
    using R shape3_vec[OF assms] by (auto simp: in_vocab_nth)
  then show "list_all (\<lambda>(i, emb). col_ok X i emb) (enumerate 0 embs)"
    by (simp only: cols_ok_nth)
qed


subsection \<open>The recurrent encoder: shapes, prefixes, evaluation mode\<close>

lemma length_vadd: "length (vadd u v) = min (length u) (length v)"
  by (simp add: vadd_def)

lemma length_vmul: "length (vmul u v) = min (length u) (length v)"
  by (simp add: vmul_def)

lemma length_matvec: "length (matvec W v) = length W"
  by (simp add: matvec_def)

lemma lstm_cell_len:
  assumes "wf_layer P H" "length (snd hc) = H"
  shows "length (fst (lstm_cell P H x hc)) = H \<and> length (snd (lstm_cell P H x hc)) = H"
  using assms
  by (simp add: lstm_cell_def Let_def wf_layer_def length_vadd length_vmul length_matvec)

lemma lstm_layer_len: "length (fst (lstm_layer P H hc xs)) = length xs"
  by (induction xs arbitrary: hc) (auto simp: Let_def)

lemma lstm_layer_out:
  "wf_layer P H \<Longrightarrow> length (snd hc) = H \<Longrightarrow>
   list_all (\<lambda>y. length y = H) (fst (lstm_layer P H hc xs))"
proof (induction xs arbitrary: hc)
  case Nil
  then show ?case by simp
next
  case (Cons x xs)
  have c: "length (fst (lstm_cell P H x hc)) = H" "length (snd (lstm_cell P H x hc)) = H"
    using lstm_cell_len[OF Cons.prems] by auto
  show ?case using Cons.IH[OF Cons.prems(1) c(2)] c(1) by (simp add: Let_def)
qed

lemma lstm_layer_take:
  "fst (lstm_layer P H hc (take n xs)) = take n (fst (lstm_layer P H hc xs))"
proof (induction xs arbitrary: hc n)
  case Nil
  then show ?case by simp
next
  case (Cons x xs)
  then show ?case by (cases n) (auto simp: Let_def)
qed

lemma length_imap: "length (imap f xs) = length xs"
  by (simp add: imap_def length_imap_from)

lemma nth_imap: "n < length xs \<Longrightarrow> imap f xs ! n = f n (xs ! n)"
  by (simp add: imap_def nth_imap_from)

lemma take_imap: "take n (imap f xs) = imap f (take n xs)"
  by (simp add: imap_def take_imap_from)

lemma imap_map: "imap f (map g xs) = imap (\<lambda>k x. f k (g x)) xs"
  by (simp add: imap_def imap_from_map)

lemma length_dropout2: "length (dropout2 p k xs) = length xs"
  by (simp add: dropout2_def length_imap)

lemma dropout2_take: "dropout2 p k (take n xs) = take n (dropout2 p k xs)"
  by (simp add: dropout2_def take_imap)

lemma dropout2_lens:
  "list_all (\<lambda>y. length y = H) xs \<Longrightarrow> list_all (\<lambda>y. length y = H) (dropout2 p k xs)"
  by (auto simp: list_all_length dropout2_def length_imap nth_imap)

lemma lstm_stack_len: "length (fst (lstm_stack tr p keep H l Ps hcs xs)) = length xs"
  by (induction Ps arbitrary: l xs) (auto simp: Let_def lstm_layer_len length_dropout2)

lemma lstm_stack_take:
  "fst (lstm_stack tr p keep H l Ps hcs (take n xs)) =
   take n (fst (lstm_stack tr p keep H l Ps hcs xs))"
  by (induction Ps arbitrary: l xs) (auto simp: Let_def lstm_layer_take dropout2_take)

lemma lstm_stack_eval:
  "lstm_stack False p keep H l Ps hcs xs = lstm_stack False p keep' H l Ps hcs xs"
  by (induction Ps arbitrary: l xs) (auto simp: Let_def)

lemma lstm_stack_out:
  "Ps \<noteq> [] \<Longrightarrow> list_all (\<lambda>P. wf_layer P H) Ps \<Longrightarrow>
   (\<forall>i. l \<le> i \<and> i < l + length Ps \<longrightarrow> length (snd (hcs ! i)) = H) \<Longrightarrow>
   list_all (\<lambda>y. length y = H) (fst (lstm_stack tr p keep H l Ps hcs xs))"
proof (induction Ps arbitrary: l xs)
  case Nil
  then show ?case by simp
next
  case (Cons P Ps)
  have wf: "wf_layer P H" and hl: "length (snd (hcs ! l)) = H"
    using Cons.prems by auto
  show ?case
  proof (cases "Ps = []")
    case True
    then show ?thesis using lstm_layer_out[OF wf hl] by (simp add: Let_def)
  next
    case False
    have "list_all (\<lambda>P. wf_layer P H) Ps" using Cons.prems by simp
    moreover have "\<forall>i. Suc l \<le> i \<and> i < Suc l + length Ps \<longrightarrow> length (snd (hcs ! i)) = H"
      using Cons.prems(3) by auto
    ultimately show ?thesis using Cons.IH[OF False] by (simp add: Let_def)
  qed
qed

lemma shape3_I:
  "0 < B \<Longrightarrow> 0 < T \<Longrightarrow> length X = B \<Longrightarrow>
   (\<And>b. b < B \<Longrightarrow> length (X ! b) = T \<and> list_all (\<lambda>v. length v = F) (X ! b)) \<Longrightarrow>
   shape3 X B T F"
  unfolding shape3_def by (auto simp: list_all_length)

lemma hx_shape_zeros: "hx_shape (zeros3 n B H) n B H"
  by (simp add: hx_shape_def zeros3_def list_all_iff)

lemma LSTM_forward_zero_state:
  "LSTM_forward L tr keep Z None =
   LSTM_forward L tr keep Z
     (Some (zeros3 (nat (num_layers L)) (length Z) (nat (hidden_size L)),
            zeros3 (nat (num_layers L)) (length Z) (nat (hidden_size L))))"
  by (simp add: LSTM_forward_def Let_def)

lemma LSTM_forward_bad_width:
  assumes "shape3 Z B T F" "int F \<noteq> input_size L"
  shows "LSTM_forward L tr keep Z hx = Inl RuntimeError"
proof -
  obtain s v where "s \<in> set Z" "v \<in> set s" "length v = F"
    using shape3_ex[OF assms(1)] by blast
  then have "\<not> list_all (list_all (\<lambda>v. int (length v) = input_size L)) Z"
    using assms(2) by (auto simp: list_all_iff)
  then show ?thesis by (simp add: LSTM_forward_def)
qed

lemma LSTM_forward_ok:
  assumes "wf_LSTM L" "shape3 Z B T F" "int F = input_size L"
  shows "\<exists>out hid. LSTM_forward L tr keep Z None = Inr (out, hid) \<and>
                   shape3 out B T (nat (hidden_size L))"
proof -
  let ?n = "nat (num_layers L)" and ?H = "nat (hidden_size L)"
  let ?hcs = "\<lambda>b. map (\<lambda>l. (zeros3 ?n (length Z) ?H ! l ! b, zeros3 ?n (length Z) ?H ! l ! b)) [0..<?n]"
  let ?rs = "imap (\<lambda>b xs. lstm_stack tr (dropout L) (\<lambda>l. keep l b) ?H 0 (layer_params L) (?hcs b) xs) Z"
  have chk: "list_all (list_all (\<lambda>v. int (length v) = input_size L)) Z"
    using assms(2,3) by (auto simp: shape3_def list_all_iff)
  have ne: "layer_params L \<noteq> []" using assms(1) by (auto simp: wf_LSTM_def)
  have wfl: "list_all (\<lambda>P. wf_layer P ?H) (layer_params L)"
    using assms(1) by (simp add: wf_LSTM_def)
  have len: "length (layer_params L) = ?n" using assms(1) by (simp add: wf_LSTM_def)
  have st: "\<forall>i. 0 \<le> i \<and> i < 0 + length (layer_params L) \<longrightarrow> length (snd (?hcs b ! i)) = ?H"
    if "b < length Z" for b
    using that len by (simp add: zeros3_def)
  have nonempty: "\<not> list_ex (\<lambda>xs. xs = []) Z"
    using assms(2) by (auto simp: shape3_def list_all_iff list_ex_iff)
  have eq: "LSTM_forward L tr keep Z None =
            Inr (map fst ?rs, (map (\<lambda>l. map (\<lambda>r. fst (snd r ! l)) ?rs) [0..<?n],
                               map (\<lambda>l. map (\<lambda>r. snd (snd r ! l)) ?rs) [0..<?n]))"
    using chk nonempty by (simp add: LSTM_forward_def Let_def hx_shape_zeros)
  have B: "length Z = B" "0 < B" "0 < T" using assms(2) by (auto simp: shape3_def)
  have row: "length (map fst ?rs ! b) = T \<and> list_all (\<lambda>y. length y = ?H) (map fst ?rs ! b)"
    if "b < length Z" for b
  proof -
    have "length (Z ! b) = T" using assms(2) that by (auto simp: shape3_def list_all_length)
    then show ?thesis
      using that lstm_stack_out[OF ne wfl st[OF that]]
      by (simp add: length_imap nth_imap lstm_stack_len)
  qed
  have "shape3 (map fst ?rs) B T ?H"
  proof (rule shape3_I)
    show "0 < B" "0 < T" using B by auto
    show "length (map fst ?rs) = B" using B by (simp add: length_imap)
    show "length (map fst ?rs ! b) = T \<and> list_all (\<lambda>v. length v = ?H) (map fst ?rs ! b)"
      if "b < B" for b
      using row[of b] that B by simp
  qed
  with eq show ?thesis by blast
qed

lemma LSTM_forward_take:
  assumes "LSTM_forward L tr keep Z hx = Inr (out, hid)"
  shows "\<exists>hid'. LSTM_forward L tr keep (map (take (Suc n)) Z) hx =
                 Inr (map (take (Suc n)) out, hid')"
proof -
  have chk: "list_all (list_all (\<lambda>v. int (length v) = input_size L)) Z"
    using assms by (auto simp: LSTM_forward_def split: if_splits)
  then have chk': "list_all (list_all (\<lambda>v. int (length v) = input_size L))
                     (map (take (Suc n)) Z)"
    by (auto simp: list_all_iff dest: in_set_takeD)
  have ne: "\<not> list_ex (\<lambda>xs. xs = []) Z"
    using assms by (auto simp: LSTM_forward_def Let_def split: if_splits)
  then have ne': "\<not> list_ex (\<lambda>xs. xs = []) (map (take (Suc n)) Z)"
    by (auto simp: list_ex_iff)
  show ?thesis
    using assms chk chk' ne ne'
    by (auto simp: LSTM_forward_def Let_def imap_map lstm_stack_take imap_def
             split: if_splits intro!: nth_equalityI simp: length_imap_from nth_imap_from)
qed

lemma LSTM_forward_eval:
  "LSTM_forward L False keep Z hx = LSTM_forward L False keep' Z hx"
proof -
  have "(\<lambda>b. lstm_stack False p (\<lambda>l. keep l b) H l Ps (hcs b)) =
        (\<lambda>b. lstm_stack False p (\<lambda>l. keep' l b) H l Ps (hcs b))" for p H l Ps hcs
    by (intro ext) (rule lstm_stack_eval)
  then show ?thesis by (simp add: LSTM_forward_def Let_def)
qed






subsection \<open>The emission head\<close>

lemma Linear_forward_ok:
  assumes "wf_Linear L" "shape3 X B T F" "int F = in_features L"
  shows "\<exists>y. Linear_forward L X = Inr y \<and> shape3 y B T (nat (out_features L))"
proof -
  have "list_all (list_all (\<lambda>v. int (length v) = in_features L)) X"
    using assms(2,3) by (auto simp: shape3_def list_all_iff)
  moreover have "shape3 (map (map (\<lambda>v. vadd (matvec (lin_weight L) v) (lin_bias L))) X)
                   B T (nat (out_features L))"
    using assms(1,2)
    by (auto simp: shape3_def list_all_iff wf_Linear_def length_vadd length_matvec)
  ultimately show ?thesis by (simp add: Linear_forward_def)
qed

lemma Linear_forward_take:
  assumes "Linear_forward L X = Inr y"
  shows "Linear_forward L (map (take n) X) = Inr (map (take n) y)"
proof -
  have chk: "list_all (list_all (\<lambda>v. int (length v) = in_features L)) X"
    using assms by (auto simp: Linear_forward_def split: if_splits)
  then have "list_all (list_all (\<lambda>v. int (length v) = in_features L)) (map (take n) X)"
    by (auto simp: list_all_iff dest: in_set_takeD)
  then show ?thesis
    using assms chk by (auto simp: Linear_forward_def take_map)
qed

lemma Dropout_forward_shape:
  assumes "shape3 y B T F"
  shows "shape3 (Dropout_forward p tr keep y) B T F"
proof (cases tr)
  case False
  then show ?thesis using assms by (simp add: Dropout_forward_def)
next
  case True
  have B: "0 < B" "0 < T" "length y = B" using assms by (auto simp: shape3_def)
  have r: "length (y ! b) = T \<and> list_all (\<lambda>v. length v = F) (y ! b)" if "b < B" for b
    using assms that by (auto simp: shape3_def list_all_length)
  have "shape3 (imap (\<lambda>b. dropout2 p (keep b)) y) B T F"
  proof (rule shape3_I)
    show "0 < B" "0 < T" by fact+
    show "length (imap (\<lambda>b. dropout2 p (keep b)) y) = B" using B by (simp add: length_imap)
    show "length (imap (\<lambda>b. dropout2 p (keep b)) y ! b) = T \<and>
          list_all (\<lambda>v. length v = F) (imap (\<lambda>b. dropout2 p (keep b)) y ! b)" if "b < B" for b
      using r[OF that] that B by (simp add: nth_imap length_dropout2 dropout2_lens)
  qed
  with True show ?thesis by (simp add: Dropout_forward_def)
qed

lemma Dropout_forward_take:
  "Dropout_forward p tr keep (map (take n) y) = map (take n) (Dropout_forward p tr keep y)"
  by (auto simp: Dropout_forward_def imap_map dropout2_take imap_def
           intro!: nth_equalityI simp: length_imap_from nth_imap_from)

lemma sigmoid_shape:
  "shape3 y B T F \<Longrightarrow> shape3 (map (map (map sigmoid)) y) B T F"
  by (auto simp: shape3_def list_all_iff)

lemma sigmoid_entries:
  "s \<in> set (map (map (map sigmoid)) y) \<Longrightarrow> v \<in> set s \<Longrightarrow> x \<in> set v \<Longrightarrow> 0 < x \<and> x < 1"
  using sigmoid_range by auto

subsection \<open>The forward pass as a whole\<close>

text \<open>
  On an input of shape \<open>(B, T, F)\<close> a well-formed model does one of three things: it
  fails with IndexError (a column is missing or a code is unknown), it fails with
  RuntimeError (\<open>F\<close> is not \<open>n_features\<close>), or it returns.
\<close>

lemma int_sum_list: "int (sum_list (map f xs)) = sum_list (map (\<lambda>x. int (f x)) xs)"
  by (induction xs) auto

lemma length_fused:
  assumes "list_all wf_Embedding embs" "length embs \<le> length v"
    and "\<forall>i < length embs. 0 \<le> long (v ! i) \<and> long (v ! i) < int (num_embeddings (embs ! i))"
  shows "length (FusedFeatureVector embs v) = sum_list (map embedding_dim embs) + (length v - length embs)"
proof -
  have "length (weight (embs ! i) ! nat (long (v ! i))) = embedding_dim (embs ! i)"
    if "i < length embs" for i
  proof -
    have "wf_Embedding (embs ! i)" using assms(1) that by (simp add: list_all_length)
    moreover have "nat (long (v ! i)) < num_embeddings (embs ! i)"
      using assms(3) that by auto
    ultimately show ?thesis by (auto simp: wf_Embedding_def list_all_length)
  qed
  then have "map (\<lambda>i. length (weight (embs ! i) ! nat (long (v ! i)))) [0..<length embs] =
             map (\<lambda>i. embedding_dim (embs ! i)) [0..<length embs]"
    by simp
  also have "\<dots> = map embedding_dim embs"
    by (rule nth_equalityI) auto
  finally show ?thesis
    by (simp add: FusedFeatureVector_def length_concat comp_def)
qed

lemma fused_shape:
  assumes "list_all wf_Embedding embs" "shape3 X B T F" "length embs \<le> F" "in_vocab embs X"
  shows "shape3 (map (map (FusedFeatureVector embs)) X) B T
           (sum_list (map embedding_dim embs) + (F - length embs))"
proof -
  have "length (FusedFeatureVector embs v) = sum_list (map embedding_dim embs) + (F - length embs)"
    if "s \<in> set X" "v \<in> set s" for s v
  proof -
    have l: "length v = F" using shape3_vec[OF assms(2) that] .
    have "\<forall>i < length embs. 0 \<le> long (v ! i) \<and> long (v ! i) < int (num_embeddings (embs ! i))"
      using assms(3,4) that l by (auto simp: in_vocab_nth)
    then show ?thesis using length_fused[OF assms(1), of v] l assms(3) by simp
  qed
  then show ?thesis using assms(2) by (auto simp: shape3_def list_all_iff)
qed

lemma forward_IndexError:
  assumes "shape3 X B T F" "\<not> (length (embeddings m) \<le> F \<and> in_vocab (embeddings m) X)"
  shows "DRSA_forward m rnd X = Inl IndexError"
proof -
  have "\<not> list_all (\<lambda>(i, emb). col_ok X i emb) (enumerate 0 (embeddings m))"
    using assms(2) cols_ok_iff[OF assms(1), of "embeddings m"] by blast
  then have "all_features m X = Inl IndexError" by (simp add: all_features_eq)
  then show ?thesis by (simp add: DRSA_forward_def)
qed

lemma fused_width:
  assumes "wf_DRSA m" "length (embeddings m) \<le> F"
  shows "int (sum_list (map embedding_dim (embeddings m)) + (F - length (embeddings m))) =
         input_size (lstm m) \<longleftrightarrow> int F = n_features m"
  using assms by (auto simp: wf_DRSA_def int_sum_list)

lemma forward_RuntimeError:
  assumes "wf_DRSA m" "shape3 X B T F" "length (embeddings m) \<le> F" "in_vocab (embeddings m) X"
    and "int F \<noteq> n_features m"
  shows "DRSA_forward m rnd X = Inl RuntimeError"
proof -
  have f: "all_features m X = Inr (map (map (FusedFeatureVector (embeddings m))) X)"
    using assms(3,4) cols_ok_iff[OF assms(2), of "embeddings m"] by (simp add: all_features_eq)
  have "list_all wf_Embedding (embeddings m)" using assms(1) by (simp add: wf_DRSA_def)
  from fused_shape[OF this assms(2,3,4)] fused_width[OF assms(1,3)] assms(5)
  have "LSTM_forward (lstm m) (training m) (lstm_keep rnd) (map (map (FusedFeatureVector (embeddings m))) X) None
        = Inl RuntimeError"
    by (intro LSTM_forward_bad_width) auto
  with f show ?thesis by (simp add: DRSA_forward_def)
qed

lemma forward_ok:
  assumes "wf_DRSA m" "shape3 X B T F" "length (embeddings m) \<le> F" "in_vocab (embeddings m) X"
    and "int F = n_features m"
  shows "\<exists>out. DRSA_forward m rnd X = Inr out \<and> shape3 out B T (nat (out_features (fc m))) \<and>
           (\<forall>s \<in> set out. \<forall>v \<in> set s. \<forall>x \<in> set v. 0 < x \<and> x < 1)"
proof -
  have f: "all_features m X = Inr (map (map (FusedFeatureVector (embeddings m))) X)"
    using assms(3,4) cols_ok_iff[OF assms(2), of "embeddings m"] by (simp add: all_features_eq)
  have wfe: "list_all wf_Embedding (embeddings m)" and wfl: "wf_LSTM (lstm m)"
    and wfc: "wf_Linear (fc m)"
    using assms(1) by (simp_all add: wf_DRSA_def)
  obtain out hid where
    l: "LSTM_forward (lstm m) (training m) (lstm_keep rnd) (map (map (FusedFeatureVector (embeddings m))) X) None
        = Inr (out, hid)"
    and so: "shape3 out B T (nat (hidden_size (lstm m)))"
    using LSTM_forward_ok[OF wfl fused_shape[OF wfe assms(2,3,4)]]
      fused_width[OF assms(1,3)] assms(5) by blast
  have "int (nat (hidden_size (lstm m))) = in_features (fc m)"
    using assms(1) by (auto simp: wf_DRSA_def wf_LSTM_def)
  from Linear_forward_ok[OF wfc so this]
  obtain y where y: "Linear_forward (fc m) out = Inr y"
    and sy: "shape3 y B T (nat (out_features (fc m)))" by blast
  let ?r = "map (map (map sigmoid))
              (Dropout_forward (linear_dropout m) (training m) (linear_keep rnd) y)"
  have "DRSA_forward m rnd X = Inr ?r"
    using f l y by (simp add: DRSA_forward_def)
  moreover have "shape3 ?r B T (nat (out_features (fc m)))"
    by (intro sigmoid_shape Dropout_forward_shape sy)
  moreover have "\<forall>s \<in> set ?r. \<forall>v \<in> set s. \<forall>x \<in> set v. 0 < x \<and> x < 1"
    using sigmoid_entries by blast
  ultimately show ?thesis by blast
qed

lemma all_features_take:
  assumes "all_features m X = Inr Z"
  shows "all_features m (map (take n) X) = Inr (map (take n) Z)"
proof -
  have ok: "list_all (\<lambda>(i, emb). col_ok X i emb) (enumerate 0 (embeddings m))"
    and Z: "Z = map (map (FusedFeatureVector (embeddings m))) X"
    using assms by (auto simp: all_features_eq split: if_splits)
  have "col_ok (map (take n) X) i emb" if "col_ok X i emb" for i emb
    using that by (auto simp: col_ok_def list_all_iff dest: in_set_takeD)
  with ok have "list_all (\<lambda>(i, emb). col_ok (map (take n) X) i emb) (enumerate 0 (embeddings m))"
    by (auto simp: list_all_iff)
  then show ?thesis by (simp add: all_features_eq Z take_map)
qed

lemma forward_take:
  assumes "DRSA_forward m rnd X = Inr out"
  shows "DRSA_forward m rnd (map (take (Suc n)) X) = Inr (map (take (Suc n)) out)"
proof -
  obtain Z where Z: "all_features m X = Inr Z"
    using assms by (auto simp: DRSA_forward_def split: sum.splits)
  obtain h hid where h: "LSTM_forward (lstm m) (training m) (lstm_keep rnd) Z None = Inr (h, hid)"
    using assms Z by (auto simp: DRSA_forward_def split: sum.splits)
  obtain y where y: "Linear_forward (fc m) h = Inr y"
    using assms Z h by (auto simp: DRSA_forward_def split: sum.splits)
  have out: "out = map (map (map sigmoid))
               (Dropout_forward (linear_dropout m) (training m) (linear_keep rnd) y)"
    using assms Z h y by (simp add: DRSA_forward_def)
  obtain hid' where
    "LSTM_forward (lstm m) (training m) (lstm_keep rnd) (map (take (Suc n)) Z) None
     = Inr (map (take (Suc n)) h, hid')"
    using LSTM_forward_take[OF h, of n] by blast
  then show ?thesis
    using all_features_take[OF Z] Linear_forward_take[OF y]
    by (simp add: DRSA_forward_def out Dropout_forward_take take_map)
qed

lemma forward_eval:
  assumes "\<not> training m"
  shows "DRSA_forward m rnd X = DRSA_forward m rnd' X"
proof -
  have l: "LSTM_forward (lstm m) (training m) (lstm_keep rnd) Z None =
           LSTM_forward (lstm m) (training m) (lstm_keep rnd') Z None" for Z
    using assms LSTM_forward_eval[of "lstm m" "lstm_keep rnd" Z None "lstm_keep rnd'"] by simp
  have d: "Dropout_forward p (training m) (linear_keep rnd) y =
           Dropout_forward p (training m) (linear_keep rnd') y" for p y
    using assms by (simp add: Dropout_forward_def)
  show ?thesis unfolding DRSA_forward_def l d ..
qed

subsection \<open>The constructor\<close>

lemma DRSA_init_wf:
  assumes "DRSA_init nf hdim nlay embs osz ld lnd init = Inr m" "list_all wf_Embedding embs"
  shows "wf_DRSA m \<and> n_features m = nf \<and> hidden_dim m = hdim \<and> n_layers m = nlay \<and>
         embeddings m = embs \<and> out_features (fc m) = osz \<and> training m \<and>
         params_to_train m =
           Some (ModuleList (map Embedding_module embs
                               @ [LSTM_module (lstm m), Linear_module (fc m)]))"
  using assms
  by (auto simp: DRSA_init_def nn_LSTM_def nn_Linear_def nn_Dropout_def wf_DRSA_def wf_LSTM_def
        wf_Linear_def wf_layer_def tabulate2_def list_all_iff
      split: if_splits sum.splits)

lemma DRSA_init_ok:
  assumes "0 < sum_list (map (\<lambda>emb. int (embedding_dim emb)) embs) + nf - int (length embs)"
    and "0 < hdim" "0 < nlay" "0 \<le> osz" "0 \<le> ld" "ld \<le> 1" "0 \<le> lnd" "lnd \<le> 1"
  shows "\<exists>m. DRSA_init nf hdim nlay embs osz ld lnd init = Inr m"
  using assms
  by (auto simp: DRSA_init_def nn_LSTM_def nn_Linear_def nn_Dropout_def)

subsection \<open>Facts about the example objects\<close>

lemma ptp_wf: "list_all wf_Embedding ptp_embeddings"
  by (simp add: ptp_embeddings_def pitcher_embeddings_def team_embeddings_def nn_Embedding_def
      wf_Embedding_def tabulate2_def list_all_iff)

lemma ptp_dims:
  "length ptp_embeddings = 2"
  "sum_list (map (\<lambda>emb. int (embedding_dim emb)) ptp_embeddings) = 4"
  "num_embeddings (ptp_embeddings ! 0) = 240"
  "num_embeddings (ptp_embeddings ! 1) = 31"
  by (simp_all add: ptp_embeddings_def pitcher_embeddings_def team_embeddings_def nn_Embedding_def)

lemma drsa_init: "DRSA_init 17 2 2 ptp_embeddings 1 (1 / 10) (1 / 10) init0 = Inr drsa"
proof -
  have "\<exists>m. DRSA_init 17 2 2 ptp_embeddings 1 (1 / 10) (1 / 10) init0 = Inr m"
    by (rule DRSA_init_ok) (simp_all add: ptp_dims)
  then show ?thesis by (auto simp: drsa_def)
qed

lemma drsa_wf: "wf_DRSA drsa" "embeddings drsa = ptp_embeddings" "n_features drsa = 17"
  using DRSA_init_wf[OF drsa_init ptp_wf] by simp_all

lemma wf_DRSA_training: "wf_DRSA (m\<lparr>training := tr\<rparr>) = wf_DRSA m"
  by (simp add: wf_DRSA_def)

lemma X_two_steps_ok:
  "shape3 X_two_steps 1 2 17" "in_vocab ptp_embeddings X_two_steps"
  "shape3 X_two_steps' 1 2 17" "in_vocab ptp_embeddings X_two_steps'"
  by (simp_all add: X_two_steps_def X_two_steps'_def shape3_def in_vocab_def long_def
      ptp_embeddings_def pitcher_embeddings_def team_embeddings_def nn_Embedding_def)

lemma X_wrong_width:
  "shape3 X_one_feature 1 1 1" "shape3 X_three_features 1 1 3"
  "in_vocab ptp_embeddings X_three_features"
  by (simp_all add: X_one_feature_def X_three_features_def shape3_def in_vocab_def long_def
      ptp_embeddings_def pitcher_embeddings_def team_embeddings_def nn_Embedding_def)

lemma X_unknown_pitcher_shape: "shape3 X_unknown_pitcher 1 1 17"
  by (simp add: X_unknown_pitcher_def shape3_def)

lemma X_negative_team_shape: "shape3 X_negative_team 1 1 17"
  by (simp add: X_negative_team_def shape3_def)

lemma long_between_minus_one_and_zero: "- 1 < x \<Longrightarrow> x < 0 \<Longrightarrow> long x = 0"
  by (simp add: long_def ceiling_eq_iff)

subsection \<open>The model on concrete values\<close>

lemma long_examples:
  "long (7 / 2) = 3" "long (- 3 / 2) = - 1" "long (- 1 / 2) = 0" "long 240 = 240"
  by (simp_all add: long_def floor_eq_iff ceiling_eq_iff)

lemma fused_example:
  "FusedFeatureVector ptp_embeddings (3 # 1 # replicate 15 (1 / 2)) =
     [1 / 2, 1 / 2, 1, 1] @ replicate 15 (1 / 2)"
  by (simp add: FusedFeatureVector_def ptp_embeddings_def pitcher_embeddings_def
      team_embeddings_def nn_Embedding_def tabulate2_def long_def numeral_2_eq_2)

lemma dropout_draw_matters:
  "Dropout_forward (1 / 2) True (linear_keep keep_all) [[[1]]] = [[[2]]]"
  "Dropout_forward (1 / 2) True (linear_keep keep_none) [[[1]]] = [[[0]]]"
  "Dropout_forward (1 / 2) False (linear_keep keep_none) [[[1]]] = [[[1]]]"
  by (simp_all add: Dropout_forward_def dropout2_def imap_def drop_elem_def keep_all_def
      keep_none_def)

subsection \<open>The encoder started from zero\<close>






subsection \<open>Successive calls\<close>



subsection \<open>The two constructors\<close>

lemma DRSA_init_notebook_eq:
  "DRSA_init_notebook nf hdim nlay embs osz ld lnd init =
   map_sum id (\<lambda>m. m\<lparr>params_to_train := None\<rparr>) (DRSA_init nf hdim nlay embs osz ld lnd init)"
  by (simp add: DRSA_init_notebook_def DRSA_init_def split: sum.splits)

lemma forward_ignores_params_to_train:
  "DRSA_forward (m\<lparr>params_to_train := x\<rparr>) rnd X = DRSA_forward m rnd X"
proof -
  have "all_features (m\<lparr>params_to_train := x\<rparr>) X = all_features m X"
    by (simp add: all_features_eq)
  then show ?thesis
    by (auto simp: DRSA_forward_def split: sum.splits)
qed

lemma wf_DRSA_params_to_train: "wf_DRSA (m\<lparr>params_to_train := x\<rparr>) = wf_DRSA m"
  by (simp add: wf_DRSA_def)

lemma notebook_parameters:
  assumes "DRSA_init_notebook nf hdim nlay embs osz ld lnd init = Inr m"
  shows "set (DRSA_parameters m) =
           (\<Union>P \<in> set (layer_params (lstm m)).
              {Matrix (weight_ih P), Matrix (weight_hh P), Vector (bias_ih P), Vector (bias_hh P)}) \<union>
           {Matrix (lin_weight (fc m)), Vector (lin_bias (fc m))}"
proof -
  have "params_to_train m = None"
    using assms by (auto simp: DRSA_init_notebook_def split: sum.splits)
  then show ?thesis by (auto simp: DRSA_parameters_def DRSA_children_def)
qed

lemma DRSA_init_registers_all:
  assumes "DRSA_init nf hdim nlay embs osz ld lnd init = Inr m"
  shows "set (DRSA_parameters m) =
           (\<lambda>emb. Matrix (weight emb)) ` set embs \<union>
           (\<Union>P \<in> set (layer_params (lstm m)).
              {Matrix (weight_ih P), Matrix (weight_hh P), Vector (bias_ih P), Vector (bias_hh P)}) \<union>
           {Matrix (lin_weight (fc m)), Vector (lin_bias (fc m))}"
proof -
  have p: "params_to_train m =
           Some (ModuleList (map Embedding_module embs
                               @ [LSTM_module (lstm m), Linear_module (fc m)]))"
    using assms by (auto simp: DRSA_init_def split: sum.splits)
  have t: "set (concat (map parameters (map Embedding_module embs))) =
           (\<lambda>emb. Matrix (weight emb)) ` set embs"
    by (induction embs) auto
  show ?thesis
    using t by (auto simp: DRSA_parameters_def DRSA_children_def p)
qed


subsection \<open>More facts about the example objects\<close>

lemma drsa_notebook_eq: "drsa_notebook = drsa\<lparr>params_to_train := None\<rparr>"
  using drsa_init by (simp add: drsa_notebook_def DRSA_init_notebook_eq)

lemma drsa_notebook_init:
  "DRSA_init_notebook 17 2 2 ptp_embeddings 1 (1 / 10) (1 / 10) init0 = Inr drsa_notebook"
  using drsa_init by (simp add: drsa_notebook_eq DRSA_init_notebook_eq)

lemma drsa_sizes:
  "P \<in> set (layer_params (lstm drsa)) \<Longrightarrow> length (weight_ih P) = 8 \<and> length (weight_hh P) = 8"
  "length (lin_weight (fc drsa)) = 1"
proof -
  have h: "hidden_dim drsa = 2" "out_features (fc drsa) = 1"
    using DRSA_init_wf[OF drsa_init ptp_wf] by simp_all
  show "length (lin_weight (fc drsa)) = 1"
    using drsa_wf(1) h by (simp add: wf_DRSA_def wf_Linear_def)
  show "P \<in> set (layer_params (lstm drsa)) \<Longrightarrow>
        length (weight_ih P) = 8 \<and> length (weight_hh P) = 8"
    using drsa_wf(1) h by (auto simp: wf_DRSA_def wf_LSTM_def wf_layer_def list_all_iff)
qed

lemma table_sizes: "length (weight pitcher_embeddings) = 240" "length (weight team_embeddings) = 31"
  by (simp_all add: pitcher_embeddings_def team_embeddings_def nn_Embedding_def tabulate2_def)

lemma X_small_negative_team_ok:
  "shape3 X_small_negative_team 1 1 17" "in_vocab ptp_embeddings X_small_negative_team"
  by (simp_all add: X_small_negative_team_def shape3_def in_vocab_def long_def ceiling_eq_iff
      ptp_embeddings_def pitcher_embeddings_def team_embeddings_def nn_Embedding_def)

lemma fused_small_negative:
  "FusedFeatureVector ptp_embeddings (3 # (- 1 / 2) # replicate 15 (1 / 2)) =
     [1 / 2, 1 / 2, 0, 0] @ replicate 15 (1 / 2)"
  by (simp add: FusedFeatureVector_def ptp_embeddings_def pitcher_embeddings_def
      team_embeddings_def nn_Embedding_def tabulate2_def long_def numeral_2_eq_2 ceiling_eq_iff)






section \<open>The claims\<close>

text \<open>
  Claim C1. For every model constructed with valid parameters (\<open>n_features > 0\<close>,
  \<open>hidden_dim > 0\<close>, \<open>n_layers > 0\<close>, \<open>k \<le> n_features\<close> embedding tables,
  \<open>output_size > 0\<close>), \<open>forward\<close> on an input of shape \<open>(B, T, n_features)\<close> whose
  categorical columns hold codes of the vocabulary returns a tensor of shape
  \<open>(B, T, output_size)\<close> whose entries all lie strictly between 0 and 1. It holds in
  training and in evaluation mode, for every draw of the dropout masks. Over the real
  numbers the bounds are strict; the saturation of machine floats is not modelled.
\<close>

theorem forward_shape_and_range:
  assumes "0 < nf" "0 < hdim" "0 < nlay" "int (length embs) \<le> nf" "0 < osz"
    and "list_all wf_Embedding embs"
    and "DRSA_init nf hdim nlay embs osz ld lnd init = Inr m"
    and "shape3 X B T (nat nf)" "in_vocab embs X"
  shows "\<exists>out. DRSA_forward (m\<lparr>training := tr\<rparr>) rnd X = Inr out \<and>
               shape3 out B T (nat osz) \<and>
               (\<forall>s \<in> set out. \<forall>v \<in> set s. \<forall>y \<in> set v. 0 < y \<and> y < 1)"
proof -
  let ?m = "m\<lparr>training := tr\<rparr>"
  have m: "wf_DRSA m" "n_features m = nf" "embeddings m = embs" "out_features (fc m) = osz"
    using DRSA_init_wf[OF assms(7,6)] by simp_all
  have wf: "wf_DRSA ?m" using m(1) by (simp add: wf_DRSA_training)
  have k: "length (embeddings ?m) \<le> nat nf" using assms(4) m(3) by simp
  have v: "in_vocab (embeddings ?m) X" using assms(9) m(3) by simp
  have w: "int (nat nf) = n_features ?m" using assms(1) m(2) by simp
  show ?thesis
    using forward_ok[OF wf assms(8) k v w, of rnd] m(4) by simp
qed

theorem forward_shape_and_range_witness:
  "(0::int) < 17 \<and> (0::int) < 2 \<and> int (length ptp_embeddings) \<le> 17 \<and> (0::int) < 1 \<and>
   list_all wf_Embedding ptp_embeddings \<and>
   DRSA_init 17 2 2 ptp_embeddings 1 (1 / 10) (1 / 10) init0 = Inr drsa \<and>
   shape3 X_two_steps 1 2 (nat 17) \<and> in_vocab ptp_embeddings X_two_steps \<and>
   (\<exists>out. DRSA_forward (drsa\<lparr>training := True\<rparr>) keep_all X_two_steps = Inr out \<and>
          shape3 out 1 2 (nat 1) \<and>
          (\<forall>s \<in> set out. \<forall>v \<in> set s. \<forall>y \<in> set v. 0 < y \<and> y < 1))"
proof -
  have k: "int (length ptp_embeddings) \<le> 17" by (simp add: ptp_dims)
  have s: "shape3 X_two_steps 1 2 (nat 17)" using X_two_steps_ok(1) by simp
  have "\<exists>out. DRSA_forward (drsa\<lparr>training := True\<rparr>) keep_all X_two_steps = Inr out \<and>
          shape3 out 1 2 (nat 1) \<and>
          (\<forall>s \<in> set out. \<forall>v \<in> set s. \<forall>y \<in> set v. 0 < y \<and> y < 1)"
    by (rule forward_shape_and_range[OF _ _ _ k _ ptp_wf drsa_init s X_two_steps_ok(2)]) simp_all
  then show ?thesis using k s ptp_wf drsa_init X_two_steps_ok(2) by simp
qed

text \<open>
  Claim C2 says that constructing the model with inconsistent dimensions (more tables
  than features, or \<open>n_features = 16\<close> with two tables of dimension 2) raises a
  ConfigurationError. The constructor has no such check: both constructions complete;
  the second one has the encoder width \<open>2 + 2 + 16 - 2 = 18\<close>.
\<close>

theorem init_without_validation_counterexample:
  "\<not> isl (DRSA_init 16 2 2 ptp_embeddings 1 (1 / 10) (1 / 10) init0) \<and>
   \<not> isl (DRSA_init 1 2 2 ptp_embeddings 1 (1 / 10) (1 / 10) init0) \<and>
   int (length ptp_embeddings) > 1 \<and>
   input_size (lstm (projr (DRSA_init 16 2 2 ptp_embeddings 1 (1 / 10) (1 / 10) init0))) = 18"
  by (simp add: DRSA_init_def nn_LSTM_def nn_Linear_def nn_Dropout_def ptp_dims)

text \<open>
  Claim C2, as amended. The constructor makes no consistency check and raises no
  ConfigurationError. For parameters that are valid one by one (\<open>hidden_dim\<close>,
  \<open>n_layers\<close> and \<open>output_size\<close> positive, both dropout rates in \<open>[0, 1)\<close>) and a
  positive derived width, it completes, whether or not \<open>k \<le> n_features\<close>, and the
  encoder's input width is the sum of the embedding dimensions plus \<open>n_features\<close>
  minus \<open>k\<close>.
\<close>

theorem init_derives_width:
  assumes "0 < hdim" "0 < nlay" "0 < osz" "0 \<le> ld" "ld < 1" "0 \<le> lnd" "lnd < 1"
    and "0 < sum_list (map (\<lambda>emb. int (embedding_dim emb)) embs) + nf - int (length embs)"
  shows "\<exists>m. DRSA_init nf hdim nlay embs osz ld lnd init = Inr m \<and>
             input_size (lstm m) =
               sum_list (map (\<lambda>emb. int (embedding_dim emb)) embs) + nf - int (length embs) \<and>
             n_features m = nf \<and> embeddings m = embs"
  using assms
  by (auto simp: DRSA_init_def nn_LSTM_def nn_Linear_def nn_Dropout_def)

theorem init_derives_width_witness:
  "(0::int) < 2 \<and> (0::int) < 1 \<and> (0::real) \<le> 1 / 10 \<and> (1::real) / 10 < 1 \<and>
   0 < sum_list (map (\<lambda>emb. int (embedding_dim emb)) ptp_embeddings) + 1
          - int (length ptp_embeddings) \<and>
   int (length ptp_embeddings) > 1 \<and>
   (\<exists>m. DRSA_init 1 2 2 ptp_embeddings 1 (1 / 10) (1 / 10) init0 = Inr m \<and>
        input_size (lstm m) =
          sum_list (map (\<lambda>emb. int (embedding_dim emb)) ptp_embeddings) + 1
            - int (length ptp_embeddings) \<and>
        n_features m = 1 \<and> embeddings m = ptp_embeddings)"
proof -
  have w: "0 < sum_list (map (\<lambda>emb. int (embedding_dim emb)) ptp_embeddings) + 1
                - int (length ptp_embeddings)"
    by (simp add: ptp_dims)
  have "\<exists>m. DRSA_init 1 2 2 ptp_embeddings 1 (1 / 10) (1 / 10) init0 = Inr m \<and>
        input_size (lstm m) =
          sum_list (map (\<lambda>emb. int (embedding_dim emb)) ptp_embeddings) + 1
            - int (length ptp_embeddings) \<and>
        n_features m = 1 \<and> embeddings m = ptp_embeddings"
    by (rule init_derives_width[OF _ _ _ _ _ _ _ w]) simp_all
  then show ?thesis using w by (simp add: ptp_dims)
qed

text \<open>
  Claim C3 says that \<open>forward\<close> raises a ShapeError, at once, exactly when the input
  has the wrong rank or the wrong number of features. \<open>forward\<close> checks nothing
  itself. On \<open>drsa\<close>, built for 17 features and two tables, an input with one feature
  fails in the indexing \<open>X[:, :, 1]\<close> with the IndexError that an unknown code also
  gives, and an input with three features fails only in the encoder, after both
  embedding lookups, with the library's RuntimeError.
\<close>

theorem forward_wrong_width_counterexample:
  "DRSA_forward drsa keep_all X_one_feature = Inl IndexError \<and>
   DRSA_forward drsa keep_all X_three_features = Inl RuntimeError \<and>
   shape3 X_one_feature 1 1 1 \<and> shape3 X_three_features 1 1 3 \<and> n_features drsa = 17"
proof -
  have "DRSA_forward drsa keep_all X_one_feature = Inl IndexError"
    by (rule forward_IndexError[OF X_wrong_width(1)]) (simp add: drsa_wf ptp_dims)
  moreover have "DRSA_forward drsa keep_all X_three_features = Inl RuntimeError"
    by (rule forward_RuntimeError[OF drsa_wf(1) X_wrong_width(2)])
       (simp_all add: drsa_wf ptp_dims X_wrong_width)
  ultimately show ?thesis using X_wrong_width drsa_wf by simp
qed

text \<open>
  Claim C3, as amended. For a constructed model and an input of rank 3 with \<open>F\<close>
  features, \<open>F\<close> different from \<open>n_features\<close>, \<open>forward\<close> returns no output: it fails
  with IndexError when \<open>F < k\<close> or a categorical code is outside its vocabulary, and
  otherwise with the RuntimeError of the encoder's input-width check. That RuntimeError
  is raised exactly when \<open>k \<le> F\<close>, all codes are known and \<open>F\<close> differs from
  \<open>n_features\<close>. The tensor type fixes rank 3, so nothing is stated for other ranks.
\<close>

theorem forward_wrong_width:
  assumes "DRSA_init nf hdim nlay embs osz ld lnd init = Inr m"
    and "list_all wf_Embedding embs" "shape3 X B T F"
  shows "(int F \<noteq> nf \<longrightarrow>
            DRSA_forward (m\<lparr>training := tr\<rparr>) rnd X =
              (if length embs \<le> F \<and> in_vocab embs X then Inl RuntimeError else Inl IndexError)) \<and>
         (DRSA_forward (m\<lparr>training := tr\<rparr>) rnd X = Inl RuntimeError \<longleftrightarrow>
            length embs \<le> F \<and> in_vocab embs X \<and> int F \<noteq> nf)"
proof -
  let ?m = "m\<lparr>training := tr\<rparr>"
  have m: "wf_DRSA ?m" "n_features ?m = nf" "embeddings ?m = embs"
    using DRSA_init_wf[OF assms(1,2)] by (simp_all add: wf_DRSA_training)
  consider (idx) "\<not> (length embs \<le> F \<and> in_vocab embs X)"
    | (width) "length embs \<le> F" "in_vocab embs X" "int F \<noteq> nf"
    | (good) "length embs \<le> F" "in_vocab embs X" "int F = nf"
    by blast
  then show ?thesis
  proof cases
    case idx
    then have "DRSA_forward ?m rnd X = Inl IndexError"
      using forward_IndexError[OF assms(3), of ?m rnd] m(3) by simp
    with idx show ?thesis by auto
  next
    case width
    then have "DRSA_forward ?m rnd X = Inl RuntimeError"
      using forward_RuntimeError[OF m(1) assms(3), of rnd] m(2,3) by simp
    with width show ?thesis by simp
  next
    case good
    then obtain out where "DRSA_forward ?m rnd X = Inr out"
      using forward_ok[OF m(1) assms(3), of rnd] m(2,3) by auto
    with good show ?thesis by simp
  qed
qed

theorem forward_wrong_width_witness:
  "DRSA_init 17 2 2 ptp_embeddings 1 (1 / 10) (1 / 10) init0 = Inr drsa \<and>
   list_all wf_Embedding ptp_embeddings \<and> shape3 X_three_features 1 1 3 \<and>
   int 3 \<noteq> 17 \<and> length ptp_embeddings \<le> 3 \<and> in_vocab ptp_embeddings X_three_features \<and>
   DRSA_forward (drsa\<lparr>training := False\<rparr>) keep_none X_three_features = Inl RuntimeError"
  using forward_wrong_width[OF drsa_init ptp_wf X_wrong_width(2), of False keep_none]
    drsa_init ptp_wf X_wrong_width
  by (simp add: ptp_dims)

text \<open>
  Claim C4. For a valid input, the tensor that \<open>forward\<close> hands to the encoder,
  \<open>all_features\<close>, is at every time step the specification's FusedFeatureVector: the
  \<open>k\<close> embedding lookups in table order, table \<open>i\<close> at the truncated code of column
  \<open>i\<close>, followed by the columns from \<open>k\<close> on. Its width is the sum of the embedding
  dimensions plus \<open>n_features - k\<close>. Without tables the fusion returns the input
  (\<open>.float()\<close> is the identity on the reals).
\<close>

theorem all_features_is_fused_vector:
  assumes "DRSA_init nf hdim nlay embs osz ld lnd init = Inr m"
    and "list_all wf_Embedding embs" "shape3 X B T F" "int F = nf"
    and "length embs \<le> F" "in_vocab embs X"
  shows "all_features m X = Inr (map (map (FusedFeatureVector embs)) X) \<and>
         shape3 (map (map (FusedFeatureVector embs)) X) B T
           (nat (sum_list (map (\<lambda>emb. int (embedding_dim emb)) embs) + nf - int (length embs))) \<and>
         DRSA_forward m rnd X =
           (case LSTM_forward (lstm m) (training m) (lstm_keep rnd)
                   (map (map (FusedFeatureVector embs)) X) None of
              Inl e \<Rightarrow> Inl e
            | Inr (out, hidden) \<Rightarrow>
                (case Linear_forward (fc m) out of
                   Inl e \<Rightarrow> Inl e
                 | Inr y \<Rightarrow>
                     Inr (map (map (map sigmoid))
                           (Dropout_forward (linear_dropout m) (training m) (linear_keep rnd) y)))) \<and>
         (embs = [] \<longrightarrow> all_features m X = Inr X)"
proof -
  have m: "wf_DRSA m" "n_features m = nf" "embeddings m = embs"
    using DRSA_init_wf[OF assms(1,2)] by simp_all
  have f: "all_features m X = Inr (map (map (FusedFeatureVector embs)) X)"
    using assms(5,6) cols_ok_iff[OF assms(3), of embs] m(3) by (simp add: all_features_eq)
  have "sum_list (map embedding_dim embs) + (F - length embs) =
        nat (sum_list (map (\<lambda>emb. int (embedding_dim emb)) embs) + nf - int (length embs))"
    using assms(4,5) by (simp add: int_sum_list[symmetric] nat_eq_iff)
  then have s: "shape3 (map (map (FusedFeatureVector embs)) X) B T
           (nat (sum_list (map (\<lambda>emb. int (embedding_dim emb)) embs) + nf - int (length embs)))"
    using fused_shape[OF assms(2,3,5,6)] by simp
  have "map (map (FusedFeatureVector [])) X = X"
    by (simp add: FusedFeatureVector_def map_idI)
  then have e: "embs = [] \<longrightarrow> all_features m X = Inr X" using f by auto
  show ?thesis using f s e by (simp add: DRSA_forward_def)
qed

theorem all_features_is_fused_vector_witness:
  "DRSA_init 17 2 2 ptp_embeddings 1 (1 / 10) (1 / 10) init0 = Inr drsa \<and>
   list_all wf_Embedding ptp_embeddings \<and> shape3 X_two_steps 1 2 17 \<and> int 17 = 17 \<and>
   length ptp_embeddings \<le> 17 \<and> in_vocab ptp_embeddings X_two_steps \<and>
   all_features drsa X_two_steps = Inr (map (map (FusedFeatureVector ptp_embeddings)) X_two_steps) \<and>
   shape3 (map (map (FusedFeatureVector ptp_embeddings)) X_two_steps) 1 2 19"
proof -
  have k: "length ptp_embeddings \<le> 17" by (simp add: ptp_dims)
  have "nat (sum_list (map (\<lambda>emb. int (embedding_dim emb)) ptp_embeddings) + 17
             - int (length ptp_embeddings)) = 19"
    by (simp add: ptp_dims)
  then show ?thesis
    using all_features_is_fused_vector[OF drsa_init ptp_wf X_two_steps_ok(1) _ k X_two_steps_ok(2),
        of keep_all]
      drsa_init ptp_wf X_two_steps_ok k
    by simp
qed

text \<open>
  Claim C5, causality. If two valid inputs agree on the time steps \<open>0, \<dots>, t\<close>, then
  the two outputs of \<open>forward\<close> (same parameters, same mode, same dropout draw) agree on
  the time steps \<open>0, \<dots>, t\<close>. The sequences may differ in length after \<open>t\<close>.
\<close>

theorem forward_causal:
  assumes "DRSA_init nf hdim nlay embs osz ld lnd init = Inr m"
    and "list_all wf_Embedding embs" "int F = nf" "length embs \<le> F"
    and "shape3 X B T F" "in_vocab embs X"
    and "shape3 X' B T' F" "in_vocab embs X'"
    and "map (take (Suc t)) X = map (take (Suc t)) X'"
  shows "\<exists>out out'. DRSA_forward (m\<lparr>training := tr\<rparr>) rnd X = Inr out \<and>
                    DRSA_forward (m\<lparr>training := tr\<rparr>) rnd X' = Inr out' \<and>
                    map (take (Suc t)) out = map (take (Suc t)) out'"
proof -
  let ?m = "m\<lparr>training := tr\<rparr>"
  have m: "wf_DRSA ?m" "n_features ?m = nf" "embeddings ?m = embs"
    using DRSA_init_wf[OF assms(1,2)] by (simp_all add: wf_DRSA_training)
  obtain out where out: "DRSA_forward ?m rnd X = Inr out"
    using forward_ok[OF m(1) assms(5), of rnd] m(2,3) assms(3,4,6) by auto
  obtain out' where out': "DRSA_forward ?m rnd X' = Inr out'"
    using forward_ok[OF m(1) assms(7), of rnd] m(2,3) assms(3,4,8) by auto
  have "Inr (map (take (Suc t)) out) = DRSA_forward ?m rnd (map (take (Suc t)) X)"
    using forward_take[OF out] by simp
  also have "\<dots> = DRSA_forward ?m rnd (map (take (Suc t)) X')"
    using assms(9) by simp
  also have "\<dots> = Inr (map (take (Suc t)) out')"
    using forward_take[OF out'] by simp
  finally have "map (take (Suc t)) out = map (take (Suc t)) out'" by simp
  with out out' show ?thesis by blast
qed

theorem forward_causal_witness:
  "DRSA_init 17 2 2 ptp_embeddings 1 (1 / 10) (1 / 10) init0 = Inr drsa \<and>
   list_all wf_Embedding ptp_embeddings \<and> int 17 = 17 \<and> length ptp_embeddings \<le> 17 \<and>
   shape3 X_two_steps 1 2 17 \<and> in_vocab ptp_embeddings X_two_steps \<and>
   shape3 X_two_steps' 1 2 17 \<and> in_vocab ptp_embeddings X_two_steps' \<and>
   map (take (Suc 0)) X_two_steps = map (take (Suc 0)) X_two_steps' \<and>
   X_two_steps \<noteq> X_two_steps' \<and>
   (\<exists>out out'. DRSA_forward (drsa\<lparr>training := True\<rparr>) keep_all X_two_steps = Inr out \<and>
               DRSA_forward (drsa\<lparr>training := True\<rparr>) keep_all X_two_steps' = Inr out' \<and>
               map (take (Suc 0)) out = map (take (Suc 0)) out')"
proof -
  have k: "length ptp_embeddings \<le> 17" by (simp add: ptp_dims)
  have p: "map (take (Suc 0)) X_two_steps = map (take (Suc 0)) X_two_steps'"
    by (simp add: X_two_steps_def X_two_steps'_def)
  have d: "X_two_steps \<noteq> X_two_steps'"
    by (simp add: X_two_steps_def X_two_steps'_def)
  show ?thesis
    using forward_causal[OF drsa_init ptp_wf _ k X_two_steps_ok p, of True keep_all]
      drsa_init ptp_wf X_two_steps_ok k p d
    by simp
qed

text \<open>
  Claim C6, determinism. In evaluation mode the output does not depend on the random
  draw: two calls of \<open>forward\<close> on the same input, with the same parameters, return the
  same result, whatever the dropout masks would have been.
\<close>

theorem forward_deterministic_in_eval:
  assumes "\<not> training m"
  shows "DRSA_forward m rnd X = DRSA_forward m rnd' X"
  using assms by (rule forward_eval)

theorem forward_deterministic_in_eval_witness:
  "\<not> training (drsa\<lparr>training := False\<rparr>) \<and>
   DRSA_forward (drsa\<lparr>training := False\<rparr>) keep_all X_two_steps =
   DRSA_forward (drsa\<lparr>training := False\<rparr>) keep_none X_two_steps"
  using forward_deterministic_in_eval[of "drsa\<lparr>training := False\<rparr>" keep_all X_two_steps keep_none]
  by simp

text \<open>
  Claim C7 says that \<open>forward\<close> raises an IndexError whenever a categorical column
  holds a value that truncates to an integer outside the vocabulary, any negative value
  included. Truncation is toward zero: a team code of \<open>-1/2\<close> becomes the index 0,
  row 0 of the team table is looked up, and \<open>forward\<close> returns.
\<close>

theorem forward_small_negative_counterexample:
  "shape3 X_small_negative_team 1 1 17 \<and>
   X_small_negative_team ! 0 ! 0 ! 1 < 0 \<and>
   long (X_small_negative_team ! 0 ! 0 ! 1) = 0 \<and>
   all_features drsa X_small_negative_team = Inr [[[1 / 2, 1 / 2, 0, 0] @ replicate 15 (1 / 2)]] \<and>
   \<not> isl (DRSA_forward drsa keep_all X_small_negative_team) \<and>
   DRSA_forward drsa keep_all X_small_negative_team \<noteq> Inl IndexError"
proof -
  have k: "length (embeddings drsa) \<le> 17" by (simp add: drsa_wf ptp_dims)
  have v: "in_vocab (embeddings drsa) X_small_negative_team"
    by (simp add: drsa_wf X_small_negative_team_ok)
  obtain out where o: "DRSA_forward drsa keep_all X_small_negative_team = Inr out"
    using forward_ok[OF drsa_wf(1) X_small_negative_team_ok(1) k v, of keep_all] drsa_wf(3)
    by auto
  have "list_all (\<lambda>(i, emb). col_ok X_small_negative_team i emb) (enumerate 0 (embeddings drsa))"
    using cols_ok_iff[OF X_small_negative_team_ok(1), of "embeddings drsa"] k v by simp
  then have "all_features drsa X_small_negative_team =
             Inr (map (map (FusedFeatureVector ptp_embeddings)) X_small_negative_team)"
    by (simp add: all_features_eq drsa_wf)
  then have f: "all_features drsa X_small_negative_team =
                Inr [[[1 / 2, 1 / 2, 0, 0] @ replicate 15 (1 / 2)]]"
    using fused_small_negative by (simp add: X_small_negative_team_def)
  have n: "X_small_negative_team ! 0 ! 0 ! 1 < 0" "long (X_small_negative_team ! 0 ! 0 ! 1) = 0"
    by (simp_all add: X_small_negative_team_def long_def ceiling_eq_iff)
  show ?thesis using X_small_negative_team_ok(1) n f o by simp
qed

text \<open>
  Claim C7, as amended. If some entry of a categorical column \<open>i\<close> truncates toward
  zero to an integer outside \<open>[0, num_embeddings)\<close> of table \<open>i\<close>, as every entry of
  at most \<open>-1\<close> does, \<open>forward\<close> fails with IndexError: the index is neither clamped
  nor wrapped, and the encoder is not run. (An entry strictly between \<open>-1\<close> and 0
  truncates to 0 and is no error.) The model need not be well-formed for this.
\<close>

theorem forward_unknown_code:
  assumes "shape3 X B T F" "i < length (embeddings m)" "i < F" "b < B" "t < T"
    and "X ! b ! t ! i \<le> - 1 \<or> long (X ! b ! t ! i) < 0 \<or>
         int (num_embeddings (embeddings m ! i)) \<le> long (X ! b ! t ! i)"
  shows "DRSA_forward m rnd X = Inl IndexError"
proof -
  have s: "X ! b \<in> set X" using assms(1,4) by (simp add: shape3_def)
  have "length (X ! b) = T" using assms(1,4) by (simp add: shape3_def list_all_length)
  then have v: "X ! b ! t \<in> set (X ! b)" using assms(5) by simp
  have l: "i < length (X ! b ! t)" using shape3_vec[OF assms(1) s v] assms(3) by simp
  have raw: "long x < 0" if "x \<le> - 1" for x :: real
  proof -
    have "\<lceil>x\<rceil> \<le> - 1" using that by (simp add: ceiling_le_iff)
    then show ?thesis using that by (simp add: long_def)
  qed
  have outside: "long (X ! b ! t ! i) < 0 \<or>
                 int (num_embeddings (embeddings m ! i)) \<le> long (X ! b ! t ! i)"
    using assms(6) raw by blast
  have "\<not> in_vocab (embeddings m) X"
  proof
    assume "in_vocab (embeddings m) X"
    then have "0 \<le> long (X ! b ! t ! i) \<and>
               long (X ! b ! t ! i) < int (num_embeddings (embeddings m ! i))"
      using s v l assms(2) unfolding in_vocab_nth by blast
    with outside show False by linarith
  qed
  then show ?thesis using forward_IndexError[OF assms(1)] by simp
qed

theorem forward_unknown_code_witness:
  "shape3 X_unknown_pitcher 1 1 17 \<and> 0 < length (embeddings drsa) \<and>
   int (num_embeddings (embeddings drsa ! 0)) \<le> long (X_unknown_pitcher ! 0 ! 0 ! 0) \<and>
   DRSA_forward drsa keep_all X_unknown_pitcher = Inl IndexError \<and>
   shape3 X_negative_team 1 1 17 \<and> 1 < length (embeddings drsa) \<and>
   X_negative_team ! 0 ! 0 ! 1 \<le> - 1 \<and>
   DRSA_forward drsa keep_all X_negative_team = Inl IndexError"
proof -
  have c: "int (num_embeddings (embeddings drsa ! 0)) \<le> long (X_unknown_pitcher ! 0 ! 0 ! 0)"
    by (simp add: drsa_wf ptp_dims X_unknown_pitcher_def long_def)
  have l: "0 < length (embeddings drsa)" by (simp add: drsa_wf ptp_dims)
  have u: "DRSA_forward drsa keep_all X_unknown_pitcher = Inl IndexError"
    by (rule forward_unknown_code[OF X_unknown_pitcher_shape l _ _ _ disjI2[OF disjI2[OF c]]])
       simp_all
  have n: "X_negative_team ! 0 ! 0 ! 1 \<le> - 1"
    by (simp add: X_negative_team_def)
  have l': "1 < length (embeddings drsa)" by (simp add: drsa_wf ptp_dims)
  have "DRSA_forward drsa keep_all X_negative_team = Inl IndexError"
    by (rule forward_unknown_code[OF X_negative_team_shape l' _ _ _ disjI1[OF n]]) simp_all
  then show ?thesis
    using X_unknown_pitcher_shape X_negative_team_shape l l' c n u by simp
qed




text \<open>
  Claim C9 says that the model exposes every trainable parameter block, the embedding
  tables included, through its one flat collection of parameters. The constructor of
  the copy with the training loop does (\<open>DRSA_init_registers_all\<close>): it assigns
  \<open>params_to_train\<close>, under the comment "making sure all params get trained". The
  constructor of the copy under \<open>notebooks/\<close> does not: it keeps the tables in a plain
  list, and on the notebook's own \<open>drsa\<close> neither table is among
  \<open>model.parameters()\<close>.
\<close>

theorem notebook_copy_misses_embeddings:
  "DRSA_init_notebook 17 2 2 ptp_embeddings 1 (1 / 10) (1 / 10) init0 = Inr drsa_notebook \<and>
   embeddings drsa_notebook = [pitcher_embeddings, team_embeddings] \<and>
   Matrix (weight pitcher_embeddings) \<notin> set (DRSA_parameters drsa_notebook) \<and>
   Matrix (weight team_embeddings) \<notin> set (DRSA_parameters drsa_notebook) \<and>
   Matrix (weight pitcher_embeddings) \<in> set (DRSA_parameters drsa) \<and>
   Matrix (weight team_embeddings) \<in> set (DRSA_parameters drsa)"
proof -
  have e: "embeddings drsa_notebook = [pitcher_embeddings, team_embeddings]"
    using drsa_wf(2) by (simp add: drsa_notebook_eq ptp_embeddings_def)
  have n: "Matrix (weight pitcher_embeddings) \<notin> set (DRSA_parameters drsa_notebook)"
          "Matrix (weight team_embeddings) \<notin> set (DRSA_parameters drsa_notebook)"
  proof -
    have same: "lstm drsa_notebook = lstm drsa" "fc drsa_notebook = fc drsa"
      by (simp_all add: drsa_notebook_eq)
    show "Matrix (weight pitcher_embeddings) \<notin> set (DRSA_parameters drsa_notebook)"
      unfolding notebook_parameters[OF drsa_notebook_init] same
      using drsa_sizes table_sizes by auto
    show "Matrix (weight team_embeddings) \<notin> set (DRSA_parameters drsa_notebook)"
      unfolding notebook_parameters[OF drsa_notebook_init] same
      using drsa_sizes table_sizes by auto
  qed
  have p: "params_to_train drsa =
           Some (ModuleList (map Embedding_module ptp_embeddings
                               @ [LSTM_module (lstm drsa), Linear_module (fc drsa)]))"
    using DRSA_init_wf[OF drsa_init ptp_wf] by simp
  have y: "Matrix (weight pitcher_embeddings) \<in> set (DRSA_parameters drsa)"
          "Matrix (weight team_embeddings) \<in> set (DRSA_parameters drsa)"
    by (simp_all add: DRSA_parameters_def DRSA_children_def p ptp_embeddings_def)
  show ?thesis using drsa_notebook_init e n y by simp
qed

text \<open>
  Claim C10. The encoder's input width is fixed by the constructor as the sum of the
  embedding dimensions plus \<open>n_features - k\<close>, from the list of tables that
  \<open>forward\<close> uses. For an input with \<open>n_features\<close> features and known codes,
  \<open>forward\<close> never fails with the library's size-mismatch RuntimeError, neither in the
  encoder nor in the linear head; when \<open>k \<le> n_features\<close> the fused tensor has exactly
  the encoder's width and \<open>forward\<close> returns.
\<close>

theorem encoder_width_matches:
  assumes "DRSA_init nf hdim nlay embs osz ld lnd init = Inr m"
    and "list_all wf_Embedding embs" "shape3 X B T F" "int F = nf" "in_vocab embs X"
  shows "embeddings m = embs \<and>
         input_size (lstm m) =
           sum_list (map (\<lambda>emb. int (embedding_dim emb)) embs) + nf - int (length embs) \<and>
         DRSA_forward (m\<lparr>training := tr\<rparr>) rnd X \<noteq> Inl RuntimeError \<and>
         (length embs \<le> F \<longrightarrow>
            all_features (m\<lparr>training := tr\<rparr>) X = Inr (map (map (FusedFeatureVector embs)) X) \<and>
            shape3 (map (map (FusedFeatureVector embs)) X) B T (nat (input_size (lstm m))) \<and>
            (\<exists>out. DRSA_forward (m\<lparr>training := tr\<rparr>) rnd X = Inr out))"
proof -
  let ?m = "m\<lparr>training := tr\<rparr>"
  have m: "wf_DRSA ?m" "n_features ?m = nf" "embeddings ?m = embs" "lstm ?m = lstm m"
    using DRSA_init_wf[OF assms(1,2)] by (simp_all add: wf_DRSA_training)
  have e: "embeddings m = embs" using m(3) by simp
  have w: "input_size (lstm m) =
           sum_list (map (\<lambda>emb. int (embedding_dim emb)) embs) + nf - int (length embs)"
    using m by (simp add: wf_DRSA_def)
  show ?thesis
  proof (cases "length embs \<le> F")
    case False
    then have "DRSA_forward ?m rnd X = Inl IndexError"
      using forward_IndexError[OF assms(3), of ?m rnd] m(3) by simp
    with False w e show ?thesis by simp
  next
    case True
    have f: "all_features ?m X = Inr (map (map (FusedFeatureVector embs)) X)"
      using True assms(5) cols_ok_iff[OF assms(3), of embs] m(3) by (simp add: all_features_eq)
    have "int (sum_list (map embedding_dim embs) + (F - length embs)) = input_size (lstm m)"
      using fused_width[OF m(1), of F] True m(2,3,4) assms(4) by simp
    then have "sum_list (map embedding_dim embs) + (F - length embs) = nat (input_size (lstm m))"
      by linarith
    then have s: "shape3 (map (map (FusedFeatureVector embs)) X) B T (nat (input_size (lstm m)))"
      using fused_shape[OF assms(2,3) True assms(5)] by simp
    obtain out where o: "DRSA_forward ?m rnd X = Inr out"
      using forward_ok[OF m(1) assms(3), of rnd] True m(2,3) assms(4,5) by auto
    then have "DRSA_forward ?m rnd X \<noteq> Inl RuntimeError" by simp
    with w e f s o True show ?thesis by blast
  qed
qed

theorem encoder_width_matches_witness:
  "DRSA_init 17 2 2 ptp_embeddings 1 (1 / 10) (1 / 10) init0 = Inr drsa \<and>
   list_all wf_Embedding ptp_embeddings \<and> shape3 X_two_steps 1 2 17 \<and> int 17 = 17 \<and>
   in_vocab ptp_embeddings X_two_steps \<and> length ptp_embeddings \<le> 17 \<and>
   input_size (lstm drsa) = 19 \<and>
   DRSA_forward (drsa\<lparr>training := True\<rparr>) keep_none X_two_steps \<noteq> Inl RuntimeError \<and>
   shape3 (map (map (FusedFeatureVector ptp_embeddings)) X_two_steps) 1 2 19 \<and>
   (\<exists>out. DRSA_forward (drsa\<lparr>training := True\<rparr>) keep_none X_two_steps = Inr out)"
proof -
  have k: "length ptp_embeddings \<le> 17" by (simp add: ptp_dims)
  show ?thesis
    using encoder_width_matches[OF drsa_init ptp_wf X_two_steps_ok(1) _ X_two_steps_ok(2),
        of True keep_none]
      drsa_init ptp_wf X_two_steps_ok k
    by (auto simp: ptp_dims)
qed

end
